theory Spec2Isabelle
  imports Complex_Main
begin

section \<open>Python strings\<close>

text \<open>
  A Python \<^verbatim>\<open>str\<close> is a sequence of Unicode code points, so it is modelled as a list
  of natural numbers (one per code point), not as a list of bytes. ASCII literals of
  the source are written \<open>str ''...''\<close>; the Arabic literals are written as their code
  points.
\<close>

type_synonym pystr = "nat list"

definition str :: "string \<Rightarrow> pystr" where
  "str s = map of_char s"

text \<open>
  \<^verbatim>\<open>str.isspace\<close> on one code point. \<^verbatim>\<open>str.strip()\<close> without arguments and the
  class \<^verbatim>\<open>\s\<close> of \<^verbatim>\<open>re\<close> on a \<^verbatim>\<open>str\<close> pattern both use this set
  (CPython's \<^verbatim>\<open>Py_UNICODE_ISSPACE\<close>).
\<close>

definition is_space :: "nat \<Rightarrow> bool" where
  "is_space c \<longleftrightarrow>
     (0x09 \<le> c \<and> c \<le> 0x0D) \<or> (0x1C \<le> c \<and> c \<le> 0x20) \<or> c = 0x85 \<or> c = 0xA0 \<or>
     c = 0x1680 \<or> (0x2000 \<le> c \<and> c \<le> 0x200A) \<or> c = 0x2028 \<or> c = 0x2029 \<or>
     c = 0x202F \<or> c = 0x205F \<or> c = 0x3000"

definition lstrip :: "pystr \<Rightarrow> pystr" where
  "lstrip s = dropWhile is_space s"

definition rstrip :: "pystr \<Rightarrow> pystr" where
  "rstrip s = rev (dropWhile is_space (rev s))"

text \<open>\<^verbatim>\<open>s.strip()\<close>: leading and trailing whitespace removed.\<close>

definition strip :: "pystr \<Rightarrow> pystr" where
  "strip s = rstrip (lstrip s)"

text \<open>\<^verbatim>\<open>str(n)\<close> for an \<^verbatim>\<open>int\<close>, as the f-string of \<^verbatim>\<open>save_lead\<close> formats the user id.\<close>

function digits10 :: "nat \<Rightarrow> pystr" where
  "digits10 n = (if n < 10 then [48 + n] else digits10 (n div 10) @ [48 + n mod 10])"
  by pat_completeness auto
termination
  by (relation "measure (\<lambda>n. n)") auto

definition str_of_int :: "int \<Rightarrow> pystr" where
  "str_of_int i = (if i < 0 then 45 # digits10 (nat (- i)) else digits10 (nat i))"

text \<open>
  \<^verbatim>\<open>s.split(sep, 1)\<close> for a one-character separator: the text before the first
  separator and the text after it, or the whole string alone when there is none.
\<close>

definition split1 :: "nat \<Rightarrow> pystr \<Rightarrow> pystr list" where
  "split1 sep s =
     (case dropWhile (\<lambda>c. c \<noteq> sep) s of
        [] \<Rightarrow> [s]
      | _ # after \<Rightarrow> [takeWhile (\<lambda>c. c \<noteq> sep) s, after])"

text \<open>\<^verbatim>\<open>needle in haystack\<close> on two strings: the substring test.\<close>

fun str_contains :: "pystr \<Rightarrow> pystr \<Rightarrow> bool" where
  "str_contains needle [] = (needle = [])"
| "str_contains needle (c # cs) = (take (length needle) (c # cs) = needle \<or> str_contains needle cs)"

text \<open>
  \<^verbatim>\<open>xs[i:]\<close>, a slice with a start only: a negative start counts from the end, and a
  start outside the list is clipped to it.
\<close>

definition slice_from :: "int \<Rightarrow> 'a list \<Rightarrow> 'a list" where
  "slice_from i xs =
     (let n = int (length xs);
          start = (if i < 0 then max 0 (n + i) else min i n)
      in drop (nat start) xs)"

section \<open>The regular expression of the e-mail check\<close>

text \<open>
  The fragment of \<^verbatim>\<open>re\<close> that \<^verbatim>\<open>EMAIL_RE\<close> uses: the anchors, a literal character,
  a negated bracket set and \<^verbatim>\<open>+\<close> on a single-character item. A match is searched
  as the backtracking engine does it: \<open>piece_ends\<close> lists the positions a piece can
  end at (the longest repetition first), each with the text that is left.
\<close>

datatype set_member = Chr nat | Whitespace

datatype single = Literal nat | NoneOf "set_member list"

datatype piece = Bol | Eol | One single | OneOrMore single

fun member_ok :: "set_member \<Rightarrow> nat \<Rightarrow> bool" where
  "member_ok (Chr k) c = (c = k)"
| "member_ok Whitespace c = is_space c"

fun single_ok :: "single \<Rightarrow> nat \<Rightarrow> bool" where
  "single_ok (Literal k) c = (c = k)"
| "single_ok (NoneOf ms) c = (\<not> list_ex (\<lambda>m. member_ok m c) ms)"

fun repeat_ends :: "single \<Rightarrow> nat \<times> pystr \<Rightarrow> (nat \<times> pystr) list" where
  "repeat_ends x (pos, []) = []"
| "repeat_ends x (pos, c # cs) =
     (if single_ok x c then repeat_ends x (Suc pos, cs) @ [(Suc pos, cs)] else [])"

text \<open>
  Without \<^verbatim>\<open>re.MULTILINE\<close>, \<^verbatim>\<open>^\<close> holds at position 0 only, and \<^verbatim>\<open>$\<close> holds at the
  end of the string and also just before a newline that ends the string.
\<close>

fun piece_ends :: "piece \<Rightarrow> nat \<times> pystr \<Rightarrow> (nat \<times> pystr) list" where
  "piece_ends Bol (pos, s) = (if pos = 0 then [(pos, s)] else [])"
| "piece_ends Eol (pos, s) = (if s = [] \<or> s = [0x0A] then [(pos, s)] else [])"
| "piece_ends (One x) (pos, []) = []"
| "piece_ends (One x) (pos, c # cs) = (if single_ok x c then [(Suc pos, cs)] else [])"
| "piece_ends (OneOrMore x) st = repeat_ends x st"

fun pattern_ends :: "piece list \<Rightarrow> nat \<times> pystr \<Rightarrow> (nat \<times> pystr) list" where
  "pattern_ends [] st = [st]"
| "pattern_ends (p # ps) st = concat (map (pattern_ends ps) (piece_ends p st))"

text \<open>\<^verbatim>\<open>pattern.match(s)\<close>, read as a truth value: is there a match starting at 0?\<close>

definition re_match :: "piece list \<Rightarrow> pystr \<Rightarrow> bool" where
  "re_match pat s \<longleftrightarrow> pattern_ends pat (0, s) \<noteq> []"

text \<open>\<^verbatim>\<open>EMAIL_RE = re.compile(r"^[^\s@]+@[^\s@]+\.[^\s@]+$")\<close>\<close>

definition EMAIL_RE :: "piece list" where
  "EMAIL_RE =
     [Bol, OneOrMore (NoneOf [Whitespace, Chr 0x40]), One (Literal 0x40),
      OneOrMore (NoneOf [Whitespace, Chr 0x40]), One (Literal 0x2E),
      OneOrMore (NoneOf [Whitespace, Chr 0x40]), Eol]"

text \<open>
  The shape of an e-mail address in the words of the specification: non-whitespace
  characters, one \<open>@\<close>, non-whitespace characters, a dot, and more non-whitespace
  characters. "One \<open>@\<close>" is read as: the \<open>@\<close> that separates the local part is the only
  one of the string.
\<close>

definition email_part :: "pystr \<Rightarrow> bool" where
  "email_part p \<longleftrightarrow> p \<noteq> [] \<and> list_all (\<lambda>c. \<not> is_space c \<and> c \<noteq> 0x40) p"

definition email_shape :: "pystr \<Rightarrow> bool" where
  "email_shape s \<longleftrightarrow>
     (\<exists>local domain tld.
        s = local @ [0x40] @ domain @ [0x2E] @ tld \<and>
        email_part local \<and> email_part domain \<and> email_part tld)"

section \<open>Configuration and the literals of the source\<close>

text \<open>
  The module-level settings read from the environment at start-up. \<open>OPENAI_API_KEY\<close>
  is \<open>None\<close> when the variable is unset; \<open>USE_OLLAMA\<close> is the outcome of comparing
  the lower-cased variable with \<^verbatim>\<open>"true"\<close>.
\<close>

record config =
  COMPANY_NAME :: pystr
  OPENAI_API_KEY :: "pystr option"
  OPENAI_MODEL :: pystr
  USE_OLLAMA :: bool
  OLLAMA_MODEL :: pystr

text \<open>\<^verbatim>\<open>if OPENAI_API_KEY:\<close> holds for a key that is set and not the empty string.\<close>

definition key_configured :: "config \<Rightarrow> bool" where
  "key_configured cfg = (case OPENAI_API_KEY cfg of None \<Rightarrow> False | Some k \<Rightarrow> k \<noteq> [])"

definition LEADS_CSV :: string where
  "LEADS_CSV = ''leads.csv''"

text \<open>
  The string literals, by their code points. The two halves of an f-string are the
  text before and after its hole.
\<close>

definition system_prompt_head :: pystr where
  "system_prompt_head =
     [10] @
     str ''    '' @
     [0x623, 0x646, 0x62A, 32, 0x645, 0x633, 0x627, 0x639, 0x62F, 32, 0x627, 0x62D] @
     [0x62A, 0x631, 0x627, 0x641, 0x64A, 32, 0x64A, 0x62A, 0x62D, 0x62F, 0x62B, 32] @
     [0x627, 0x644, 0x639, 0x631, 0x628, 0x64A, 0x629, 32, 0x628, 0x637, 0x644, 0x627] @
     [0x642, 0x629, 0x60C, 32, 0x64A, 0x639, 0x645, 0x644, 32, 0x644, 0x62F, 0x649] @
     [32]"

definition system_prompt_tail :: pystr where
  "system_prompt_tail =
     [46, 10] @
     str ''    '' @
     [0x645, 0x647, 0x627, 0x645, 0x643, 58, 10] @
     str ''    - '' @
     [0x641, 0x647, 0x645, 32, 0x627, 0x62D, 0x62A, 0x64A, 0x627, 0x62C, 32, 0x627] @
     [0x644, 0x639, 0x645, 0x64A, 0x644, 32, 0x648, 0x627, 0x642, 0x62A, 0x631, 0x627] @
     [0x62D, 32, 0x62D, 0x644, 0x648, 0x644, 32, 0x628, 0x631, 0x645, 0x62C, 0x64A] @
     [0x629, 32, 0x639, 0x645, 0x644, 0x64A, 0x629, 32, 0x645, 0x639, 32, 0x62E] @
     [0x637, 0x648, 0x627, 0x62A, 32, 0x648, 0x627, 0x636, 0x62D, 0x629, 46, 10] @
     str ''    - '' @
     [0x62A, 0x648, 0x636, 0x64A, 0x62D, 32, 0x627, 0x644, 0x62A, 0x642, 0x646, 0x64A] @
     [0x627, 0x62A, 32, 0x627, 0x644, 0x645, 0x646, 0x627, 0x633, 0x628, 0x629, 32] @
     [40, 0x645, 0x62B, 0x627, 0x644] @
     str '': React/Next.js'' @
     [0x60C] @
     str '' Django/FastAPI'' @
     [0x60C] @
     str '' Flutter'' @
     [0x60C] @
     str '' PostgreSQL'' @
     [0x60C] @
     str '' Docker).'' @
     [10] @
     str ''    - '' @
     [0x625, 0x630, 0x627, 32, 0x637, 0x644, 0x628, 32, 0x627, 0x644, 0x639, 0x645] @
     [0x64A, 0x644, 32, 0x633, 0x639, 0x631, 0x627, 0x64B, 0x60C, 32, 0x623, 0x639] @
     [0x637, 0x647, 32, 0x645, 0x62F, 0x649, 32, 0x62A, 0x642, 0x631, 0x64A, 0x628] @
     [0x64A, 32, 0x648, 0x627, 0x637, 0x644, 0x628, 32, 0x62A, 0x641, 0x627, 0x635] @
     [0x64A, 0x644, 32, 0x623, 0x643, 0x62B, 0x631, 46, 10] @
     str ''    - '' @
     [0x634, 0x62C, 0x651, 0x639, 0x647, 32, 0x639, 0x644, 0x649, 32, 0x645, 0x634] @
     [0x627, 0x631, 0x643, 0x629, 32, 0x628, 0x631, 0x64A, 0x62F, 0x647, 32, 0x644] @
     [0x625, 0x631, 0x633, 0x627, 0x644, 32, 0x639, 0x631, 0x636, 32, 0x645, 0x641] @
     [0x635, 0x644, 32, 0x639, 0x628, 0x631, 32, 0x627, 0x644, 0x623, 0x645, 0x631] @
     str '' /contact.'' @
     [10] @
     str ''    ''"

definition start_text_head :: pystr where
  "start_text_head =
     [0x623, 0x647, 0x644, 0x64B, 0x627, 32, 0x628, 0x643, 32, 0x645, 0x639, 32]"

definition start_text_tail :: pystr where
  "start_text_tail =
     [33, 10, 10, 0x623, 0x633, 0x62A, 0x637, 0x64A, 0x639, 32, 0x645, 0x633] @
     [0x627, 0x639, 0x62F, 0x62A, 0x643, 32, 0x641, 0x64A, 58, 32, 0x62A, 0x637] @
     [0x648, 0x64A, 0x631, 32, 0x645, 0x648, 0x627, 0x642, 0x639, 0x60C, 32, 0x62A] @
     [0x637, 0x628, 0x64A, 0x642, 0x627, 0x62A, 32, 0x627, 0x644, 0x62C, 0x648, 0x627] @
     [0x644, 0x60C, 32, 0x62D, 0x644, 0x648, 0x644, 32, 0x627, 0x644, 0x630, 0x643] @
     [0x627, 0x621, 32, 0x627, 0x644, 0x627, 0x635, 0x637, 0x646, 0x627, 0x639, 0x64A] @
     [0x60C, 32, 0x627, 0x644, 0x62A, 0x635, 0x645, 0x64A, 0x645] @
     str '' UI/UX'' @
     [0x60C, 32, 0x648, 0x627, 0x644, 0x635, 0x64A, 0x627, 0x646, 0x629, 46, 10] @
     [10, 0x627, 0x633, 0x62A, 0x62E, 0x62F, 0x645, 32, 0x627, 0x644, 0x623, 0x648] @
     [0x627, 0x645, 0x631, 32, 0x627, 0x644, 0x62A, 0x627, 0x644, 0x64A, 0x629, 58] @
     [10] @
     str ''/services '' @
     [0x2014, 32, 0x639, 0x631, 0x636, 32, 0x627, 0x644, 0x62E, 0x62F, 0x645, 0x627] @
     [0x62A, 10] @
     str ''/contact '' @
     [0x2014, 32, 0x62A, 0x631, 0x643, 32, 0x628, 0x64A, 0x627, 0x646, 0x627, 0x62A] @
     [0x643, 32, 0x644, 0x646, 0x631, 0x62C, 0x639, 32, 0x625, 0x644, 0x64A, 0x643] @
     [10, 0x623, 0x648, 32, 0x627, 0x633, 0x623, 0x644, 0x646, 0x64A, 32, 0x623] @
     [0x64A, 32, 0x633, 0x624, 0x627, 0x644, 32, 0x62D, 0x627, 0x644, 0x64A, 0x64B] @
     [0x627, 46]"

definition offline_head :: pystr where
  "offline_head =
     [62, 32, 0x631, 0x62F, 32, 0x630, 0x643, 0x64A, 32, 0x645, 0x628, 0x633] @
     [0x651, 0x637, 32, 40, 0x628, 0x62F, 0x648, 0x646] @
     str '' API)'' @
     [10, 0x641, 0x647, 0x645, 0x62A, 32, 0x637, 0x644, 0x628, 0x643, 58, 32]"

definition offline_tail :: pystr where
  "offline_tail =
     [10, 10, 0x64A, 0x645, 0x643, 0x646, 0x646, 0x627, 32, 0x62A, 0x646, 0x641] @
     [0x64A, 0x630, 32, 0x627, 0x644, 0x62D, 0x644, 32, 0x639, 0x628, 0x631] @
     str '': Frontend (Next.js) + Backend (FastAPI) + '' @
     [0x642, 0x627, 0x639, 0x62F, 0x629, 32, 0x628, 0x64A, 0x627, 0x646, 0x627, 0x62A] @
     str '' PostgreSQL + '' @
     [0x627, 0x633, 0x62A, 0x636, 0x627, 0x641, 0x629] @
     str '' Docker.'' @
     [10, 0x644, 0x644, 0x62D, 0x635, 0x648, 0x644, 32, 0x639, 0x644, 0x649, 32] @
     [0x639, 0x631, 0x636, 32, 0x62F, 0x642, 0x64A, 0x642, 32, 0x627, 0x643, 0x62A] @
     [0x628] @
     str '' /contact '' @
     [0x648, 0x627, 0x631, 0x633, 0x644, 32, 0x628, 0x631, 0x64A, 0x62F, 0x643, 32] @
     [0x648, 0x646, 0x628, 0x630, 0x629, 32, 0x639, 0x646, 32, 0x645, 0x634, 0x631] @
     [0x648, 0x639, 0x643, 46]"

definition svc_msg_1 :: pystr where
  "svc_msg_1 =
     str ''**''"

definition svc_msg_2 :: pystr where
  "svc_msg_2 =
     [42, 42, 10]"

definition svc_msg_3 :: pystr where
  "svc_msg_3 =
     [10, 10, 0x627, 0x644, 0x633, 0x639, 0x631, 32, 0x64A, 0x628, 0x62F, 0x623] @
     [32, 0x645, 0x646, 58, 32]"

definition svc_msg_4 :: pystr where
  "svc_msg_4 =
     [32, 40, 0x64A, 0x62A, 0x63A, 0x64A, 0x631, 32, 0x62D, 0x633, 0x628, 32] @
     [0x627, 0x644, 0x645, 0x62A, 0x637, 0x644, 0x628, 0x627, 0x62A, 41, 46, 10] @
     [0x623, 0x62E, 0x628, 0x631, 0x646, 0x64A, 32, 0x628, 0x627, 0x62D, 0x62A, 0x64A] @
     [0x627, 0x62C, 0x643, 32, 0x623, 0x648, 32, 0x627, 0x643, 0x62A, 0x628] @
     str '' /contact '' @
     [0x644, 0x62A, 0x631, 0x643, 32, 0x628, 0x64A, 0x627, 0x646, 0x627, 0x62A, 0x643] @
     [46]"

definition svc_error_text :: pystr where
  "svc_error_text =
     [0x62D, 0x62F, 0x62B, 32, 0x62E, 0x637, 0x623, 32, 0x2014, 32, 0x62C, 0x631] @
     [0x651, 0x628, 32, 0x645, 0x631, 0x629, 32, 0x623, 0x62E, 0x631, 0x649, 46]"

definition start_memory_text :: pystr where
  "start_memory_text =
     [0x645, 0x631, 0x62D, 0x628, 0x627, 33, 32, 0x623, 0x646, 0x627, 32, 0x628] @
     [0x648, 0x62A, 32, 0x627, 0x644, 0x634, 0x631, 0x643, 0x629, 46]"

definition services_prompt :: pystr where
  "services_prompt =
     [0x627, 0x62E, 0x62A, 0x631, 32, 0x627, 0x644, 0x62E, 0x62F, 0x645, 0x629, 32] @
     [0x627, 0x644, 0x62A, 0x64A, 32, 0x62A, 0x647, 0x645, 0x643, 58]"

definition need_default :: pystr where
  "need_default =
     [0x639, 0x627, 0x645]"

definition ask_name_text :: pystr where
  "ask_name_text =
     [0x633, 0x646, 0x623, 0x62E, 0x630, 32, 0x628, 0x639, 0x636, 32, 0x627, 0x644] @
     [0x628, 0x64A, 0x627, 0x646, 0x627, 0x62A, 32, 0x627, 0x644, 0x628, 0x633, 0x64A] @
     [0x637, 0x629, 46, 32, 0x645, 0x627, 32, 0x627, 0x633, 0x645, 0x643, 32] @
     [0x627, 0x644, 0x643, 0x627, 0x645, 0x644, 0x61F]"

definition ask_email_text :: pystr where
  "ask_email_text =
     [0x628, 0x631, 0x64A, 0x62F, 0x643, 32, 0x627, 0x644, 0x625, 0x644, 0x643, 0x62A] @
     [0x631, 0x648, 0x646, 0x64A, 0x61F]"

definition bad_email_text :: pystr where
  "bad_email_text =
     [0x635, 0x64A, 0x63A, 0x629, 32, 0x627, 0x644, 0x628, 0x631, 0x64A, 0x62F, 32] @
     [0x63A, 0x64A, 0x631, 32, 0x635, 0x62D, 0x64A, 0x62D, 0x629, 32, 0x2014, 32] @
     [0x623, 0x639, 0x62F, 32, 0x625, 0x62F, 0x62E, 0x627, 0x644, 0x647, 46]"

definition ask_note_text :: pystr where
  "ask_note_text =
     [0x635, 0x641, 32, 0x628, 0x627, 0x62E, 0x62A, 0x635, 0x627, 0x631, 32, 0x627] @
     [0x62D, 0x62A, 0x64A, 0x627, 0x62C, 0x643, 32, 0x623, 0x648, 32, 0x646, 0x648] @
     [0x639, 32, 0x627, 0x644, 0x645, 0x634, 0x631, 0x648, 0x639, 58]"

definition thanks_text :: pystr where
  "thanks_text =
     [0x634, 0x643, 0x631, 0x64B, 0x627, 32, 0x644, 0x643, 33, 32, 0x62A, 0x645] @
     [32, 0x627, 0x633, 0x62A, 0x644, 0x627, 0x645, 32, 0x628, 0x64A, 0x627, 0x646] @
     [0x627, 0x62A, 0x643, 32, 0x648, 0x633, 0x646, 0x62A, 0x648, 0x627, 0x635, 0x644] @
     [32, 0x645, 0x639, 0x643, 32, 0x642, 0x631, 0x64A, 0x628, 0x64B, 0x627, 32] @
     [0x639, 0x628, 0x631, 32, 0x627, 0x644, 0x628, 0x631, 0x64A, 0x62F, 46]"

definition cancel_text :: pystr where
  "cancel_text =
     [0x62A, 0x645, 32, 0x625, 0x644, 0x63A, 0x627, 0x621, 32, 0x627, 0x644, 0x639] @
     [0x645, 0x644, 0x64A, 0x629, 46, 32, 0x64A, 0x645, 0x643, 0x646, 0x643, 32] @
     [0x627, 0x644, 0x628, 0x62F, 0x621, 32, 0x645, 0x646, 32, 0x62C, 0x62F, 0x64A] @
     [0x62F, 32, 0x641, 0x64A, 32, 0x623, 0x64A, 32, 0x648, 0x642, 0x62A, 46]"

definition COMPANY_NAME_default :: pystr where
  "COMPANY_NAME_default =
     [0x634, 0x631, 0x643, 0x629, 32, 0x628, 0x631, 0x645, 0x62C, 0x64A, 0x627, 0x62A]"

text \<open>The settings when no environment variable is set.\<close>

definition default_config :: config where
  "default_config =
     \<lparr>COMPANY_NAME = COMPANY_NAME_default, OPENAI_API_KEY = None,
      OPENAI_MODEL = str ''gpt-4o-mini'', USE_OLLAMA = False, OLLAMA_MODEL = str ''llama3.1''\<rparr>"

section \<open>The service catalog\<close>

text \<open>
  \<^verbatim>\<open>SERVICES\<close> is a dict literal; its insertion order is the order of the buttons, so
  it is an association list, looked up with \<open>map_of\<close>.
\<close>

record service =
  name :: pystr
  desc :: pystr
  starts_from :: pystr

definition SERVICES :: "(pystr \<times> service) list" where
  "SERVICES =
    [(str ''web'',
      \<lparr>name =
         [0x62A, 0x637, 0x648, 0x64A, 0x631, 32, 0x645, 0x648, 0x627, 0x642, 0x639],
       desc =
         [0x645, 0x648, 0x627, 0x642, 0x639, 32, 0x633, 0x631, 0x64A, 0x639, 0x629, 32] @
         [0x622, 0x645, 0x646, 0x629] @
         str '' (Next.js/Django) '' @
         [0x645, 0x639, 32, 0x644, 0x648, 0x62D, 0x629, 32, 0x62A, 0x62D, 0x643, 0x645] @
         [32, 0x648, 0x62A, 0x647, 0x64A, 0x626, 0x629] @
         str '' SEO.'',
       starts_from =
         str ''1000$''\<rparr>),
     (str ''mobile'',
      \<lparr>name =
         [0x62A, 0x637, 0x628, 0x64A, 0x642, 0x627, 0x62A, 32, 0x62C, 0x648, 0x627, 0x644],
       desc =
         [0x62A, 0x637, 0x628, 0x64A, 0x642, 0x627, 0x62A] @
         str '' iOS/Android (Flutter/React Native) '' @
         [0x645, 0x639, 32, 0x646, 0x634, 0x631, 32, 0x644, 0x644, 0x645, 0x62A, 0x627] @
         [0x62C, 0x631, 46],
       starts_from =
         str ''1500$''\<rparr>),
     (str ''ai'',
      \<lparr>name =
         [0x62D, 0x644, 0x648, 0x644, 32, 0x630, 0x643, 0x627, 0x621, 32, 0x627, 0x635] @
         [0x637, 0x646, 0x627, 0x639, 0x64A],
       desc =
         [0x628, 0x648, 0x62A, 0x627, 0x62A, 32, 0x645, 0x62D, 0x627, 0x62F, 0x62B, 0x629] @
         [0x60C, 32, 0x62A, 0x644, 0x62E, 0x64A, 0x635, 32, 0x62A, 0x644, 0x642, 0x627] @
         [0x626, 0x64A, 0x60C, 32, 0x62A, 0x635, 0x646, 0x64A, 0x641, 32, 0x628, 0x64A] @
         [0x627, 0x646, 0x627, 0x62A, 0x60C, 32, 0x648, 0x630, 0x643, 0x627, 0x621, 32] @
         [0x645, 0x62F, 0x645, 0x62C, 32, 0x641, 0x64A, 32, 0x627, 0x644, 0x645, 0x646] @
         [0x62A, 0x62C, 0x627, 0x62A, 46],
       starts_from =
         str ''1200$''\<rparr>),
     (str ''uiux'',
      \<lparr>name =
         str ''UI/UX'',
       desc =
         [0x62A, 0x635, 0x645, 0x64A, 0x645, 32, 0x62A, 0x62C, 0x627, 0x631, 0x628, 32] @
         [0x627, 0x633, 0x62A, 0x62E, 0x62F, 0x627, 0x645, 32, 0x62D, 0x62F, 0x64A, 0x62B] @
         [0x629, 32, 0x645, 0x639, 32, 0x646, 0x645, 0x627, 0x630, 0x62C, 32, 0x623] @
         [0x648, 0x644, 0x64A, 0x629, 32, 0x62A, 0x641, 0x627, 0x639, 0x644, 0x64A, 0x629] @
         [46],
       starts_from =
         str ''600$''\<rparr>),
     (str ''maintenance'',
      \<lparr>name =
         [0x635, 0x64A, 0x627, 0x646, 0x629, 32, 0x648, 0x62F, 0x639, 0x645],
       desc =
         [0x645, 0x631, 0x627, 0x642, 0x628, 0x629, 0x60C, 32, 0x646, 0x633, 0x62E, 32] @
         [0x627, 0x62D, 0x62A, 0x64A, 0x627, 0x637, 0x64A, 0x60C, 32, 0x62A, 0x62D, 0x62F] @
         [0x64A, 0x62B, 0x627, 0x62A, 32, 0x623, 0x645, 0x646, 0x64A, 0x629, 0x60C, 32] @
         [0x648, 0x62F, 0x639, 0x645, 32, 0x634, 0x647, 0x631, 0x64A, 46],
       starts_from =
         str ''200$/'' @
         [0x634, 0x647, 0x631]\<rparr>)]"

section \<open>Updates\<close>

text \<open>
  What the messaging library hands to a handler: the chat, the user, and the
  event. A message whose text starts with a bot command is \<open>Command\<close> with the command's
  name (what \<^verbatim>\<open>CommandHandler\<close> compares, and what \<^verbatim>\<open>filters.COMMAND\<close> detects); any
  other text message is \<open>Text\<close>; a pressed inline button is \<open>CallbackQuery\<close> with its
  data.
\<close>

record tg_user =
  user_id :: int
  username :: "pystr option"

datatype event = Command pystr | Text pystr | CallbackQuery pystr

record update =
  chat_id :: int
  effective_user :: tg_user
  event :: event

section \<open>Lead store\<close>

text \<open>
  The file system as far as the program touches it: a path holds a file, seen as
  the rows \<^verbatim>\<open>csv.writer\<close> wrote to it, or nothing. Opening and writing are taken to
  succeed.
\<close>

type_synonym csv_row = "pystr list"

type_synonym file_system = "string \<rightharpoonup> csv_row list"

definition HEADER :: csv_row where
  "HEADER =
     [str ''timestamp'', str ''name'', str ''email'', str ''need'', str ''from'',
      str ''username'', str ''note'']"

text \<open>\<^verbatim>\<open>open(path, "w")\<close> followed by one \<^verbatim>\<open>writerow\<close>: the file holds that row only.\<close>

definition write_new :: "file_system \<Rightarrow> string \<Rightarrow> csv_row \<Rightarrow> file_system" where
  "write_new fs path row = fs(path \<mapsto> [row])"

text \<open>\<^verbatim>\<open>open(path, "a")\<close> followed by one \<^verbatim>\<open>writerow\<close>: the row goes after the others.\<close>

definition append_row :: "file_system \<Rightarrow> string \<Rightarrow> csv_row \<Rightarrow> file_system" where
  "append_row fs path row =
     fs(path \<mapsto> (case fs path of None \<Rightarrow> [] | Some rows \<Rightarrow> rows) @ [row])"

definition ensure_leads_csv :: "file_system \<Rightarrow> file_system" where
  "ensure_leads_csv fs =
     (if fs LEADS_CSV = None then write_new fs LEADS_CSV HEADER else fs)"

text \<open>
  \<open>now\<close> is what \<^verbatim>\<open>datetime.utcnow().isoformat()\<close> returns at the call.
\<close>

definition save_lead ::
  "pystr \<Rightarrow> pystr \<Rightarrow> pystr \<Rightarrow> pystr \<Rightarrow> update \<Rightarrow> pystr \<Rightarrow> file_system \<Rightarrow> file_system" where
  "save_lead now nm email need upd note fs =
     append_row (ensure_leads_csv fs) LEADS_CSV
       [now, nm, email, need,
        str ''tg://user?id='' @ str_of_int (user_id (effective_user upd)),
        (case username (effective_user upd) of None \<Rightarrow> [] | Some u \<Rightarrow> u),
        note]"

section \<open>Conversational memory\<close>

record message =
  role :: pystr
  content :: pystr

text \<open>
  \<^verbatim>\<open>context.user_data\<close>, the dict the library keeps for each user. Its four keys are
  the fields; \<open>None\<close> is a key that is not in the dict.
\<close>

record user_data =
  mem :: "message list option"
  lead_need :: "pystr option"
  lead_name :: "pystr option"
  lead_email :: "pystr option"

definition empty_user_data :: user_data where
  "empty_user_data = \<lparr>mem = None, lead_need = None, lead_name = None, lead_email = None\<rparr>"

text \<open>\<^verbatim>\<open>context.user_data.get("mem", [])\<close>\<close>

definition get_mem :: "user_data \<Rightarrow> message list" where
  "get_mem ud = (case mem ud of None \<Rightarrow> [] | Some m \<Rightarrow> m)"

definition add_user_memory :: "user_data \<Rightarrow> pystr \<Rightarrow> pystr \<Rightarrow> int \<Rightarrow> user_data" where
  "add_user_memory ud r c limit =
     (let m = get_mem ud @ [\<lparr>role = r, content = c\<rparr>]
      in ud\<lparr>mem := Some (slice_from (- limit) m)\<rparr>)"

section \<open>Response provider chain\<close>

text \<open>
  The exceptions that can occur inside the two \<^verbatim>\<open>try\<close> blocks. The first group is
  raised by the client libraries, the second by the expressions of the source on a
  response of the wrong form. \<open>KeyboardInterrupt\<close> and \<open>SystemExit\<close> derive from
  \<^verbatim>\<open>BaseException\<close> only, so \<^verbatim>\<open>except Exception\<close> lets them pass.
\<close>

datatype py_exception =
    ImportError | ConnectionError | Timeout | AuthenticationError | JSONDecodeError
  | IndexError | AttributeError | TypeError | KeyError
  | KeyboardInterrupt | SystemExit

fun is_Exception :: "py_exception \<Rightarrow> bool" where
  "is_Exception KeyboardInterrupt = False"
| "is_Exception SystemExit = False"
| "is_Exception _ = True"

text \<open>
  A decoded JSON document, as \<^verbatim>\<open>r.json()\<close> returns it. An object keeps its keys
  in order, each key once. Numbers are the integers; numbers with a fraction are not
  modelled.
\<close>

datatype json =
  JNull | JBool bool | JInt int | JStr pystr | JArr "json list" | JObj "(pystr \<times> json) list"

record openai_request =
  api_key :: "pystr option"
  model :: pystr
  messages :: "message list"
  temperature :: rat
  max_tokens :: nat

record ollama_request =
  url :: pystr
  ollama_model :: pystr
  ollama_messages :: "message list"
  timeout :: nat

text \<open>
  The world outside the process, for one call of a handler: the clock, and what each
  backend does with a request. \<open>openai_create\<close> covers the import of the client, its
  construction and \<^verbatim>\<open>client.chat.completions.create\<close>; a response is the list of its
  choices, each the \<^verbatim>\<open>message.content\<close> of the choice (which may be \<^verbatim>\<open>None\<close>).
  \<open>ollama_chat\<close> covers \<^verbatim>\<open>requests.post\<close> and \<^verbatim>\<open>r.json()\<close>.
\<close>

record world =
  utcnow :: pystr
  openai_create :: "openai_request \<Rightarrow> py_exception + pystr option list"
  ollama_chat :: "ollama_request \<Rightarrow> py_exception + json"

text \<open>What a handler does to the outside, in the order it does it.\<close>

datatype effect =
    ReplyText pystr
  | ReplyKeyboard pystr "(pystr \<times> pystr) list list"
  | AnswerCallback
  | EditMessageText pystr "string option"
  | CallOpenAI openai_request
  | CallOllama ollama_request
  | LogWarning string py_exception

subsection \<open>\<^verbatim>\<open>json.dumps\<close> with its default arguments\<close>

definition hex_digit :: "nat \<Rightarrow> nat" where
  "hex_digit d = (if d < 10 then 48 + d else 87 + d)"

definition hex4 :: "nat \<Rightarrow> pystr" where
  "hex4 n =
     [hex_digit (n div 4096 mod 16), hex_digit (n div 256 mod 16),
      hex_digit (n div 16 mod 16), hex_digit (n mod 16)]"

text \<open>
  \<^verbatim>\<open>ensure_ascii=True\<close>: the quote, the backslash and the usual control characters
  have short escapes, printable ASCII stands for itself, anything else is \<^verbatim>\<open>\uXXXX\<close>
  (a surrogate pair above the basic plane).
\<close>

definition escape_char :: "nat \<Rightarrow> pystr" where
  "escape_char c =
     (if c = 0x22 then [0x5C, 0x22]
      else if c = 0x5C then [0x5C, 0x5C]
      else if c = 0x0A then [0x5C, 0x6E]
      else if c = 0x0D then [0x5C, 0x72]
      else if c = 0x09 then [0x5C, 0x74]
      else if c = 0x08 then [0x5C, 0x62]
      else if c = 0x0C then [0x5C, 0x66]
      else if 0x20 \<le> c \<and> c \<le> 0x7E then [c]
      else if c < 0x10000 then [0x5C, 0x75] @ hex4 c
      else [0x5C, 0x75] @ hex4 (0xD800 + (c - 0x10000) div 1024 mod 1024) @
           [0x5C, 0x75] @ hex4 (0xDC00 + (c - 0x10000) mod 1024))"

definition json_quote :: "pystr \<Rightarrow> pystr" where
  "json_quote s = [0x22] @ concat (map escape_char s) @ [0x22]"

fun join :: "pystr \<Rightarrow> pystr list \<Rightarrow> pystr" where
  "join sep [] = []"
| "join sep [x] = x"
| "join sep (x # y # ys) = x @ sep @ join sep (y # ys)"

fun json_dumps :: "json \<Rightarrow> pystr" where
  "json_dumps JNull = str ''null''"
| "json_dumps (JBool b) = (if b then str ''true'' else str ''false'')"
| "json_dumps (JInt i) = str_of_int i"
| "json_dumps (JStr s) = json_quote s"
| "json_dumps (JArr xs) = str ''['' @ join (str '', '') (map json_dumps xs) @ str '']''"
| "json_dumps (JObj kvs) =
     str ''{'' @
     join (str '', '') (map (\<lambda>kv. json_quote (fst kv) @ str '': '' @ json_dumps (snd kv)) kvs) @
     str ''}''"

subsection \<open>The operations the source applies to the decoded response\<close>

text \<open>\<^verbatim>\<open>key in v\<close> for a string \<open>key\<close>.\<close>

fun json_in :: "pystr \<Rightarrow> json \<Rightarrow> py_exception + bool" where
  "json_in k (JObj kvs) = Inr (map_of kvs k \<noteq> None)"
| "json_in k (JStr s) = Inr (str_contains k s)"
| "json_in k (JArr xs) = Inr (list_ex (\<lambda>x. x = JStr k) xs)"
| "json_in k _ = Inl TypeError"

text \<open>\<^verbatim>\<open>v[key]\<close> for a string \<open>key\<close>.\<close>

fun json_getitem :: "json \<Rightarrow> pystr \<Rightarrow> py_exception + json" where
  "json_getitem (JObj kvs) k = (case map_of kvs k of None \<Rightarrow> Inl KeyError | Some v \<Rightarrow> Inr v)"
| "json_getitem _ k = Inl TypeError"

text \<open>\<^verbatim>\<open>v.strip()\<close>\<close>

fun json_strip :: "json \<Rightarrow> py_exception + pystr" where
  "json_strip (JStr s) = Inr (strip s)"
| "json_strip _ = Inl AttributeError"

subsection \<open>\<^verbatim>\<open>ai_generate_reply\<close>\<close>

definition system_prompt :: "config \<Rightarrow> pystr" where
  "system_prompt cfg = strip (system_prompt_head @ COMPANY_NAME cfg @ system_prompt_tail)"

text \<open>
  The body of the first \<^verbatim>\<open>try\<close>: the request, then
  \<^verbatim>\<open>resp.choices[0].message.content.strip()\<close>.
\<close>

definition openai_request_of :: "config \<Rightarrow> message list \<Rightarrow> openai_request" where
  "openai_request_of cfg msgs =
     \<lparr>api_key = OPENAI_API_KEY cfg, model = OPENAI_MODEL cfg, messages = msgs,
      temperature = 1 / 2, max_tokens = 600\<rparr>"

definition openai_attempt :: "config \<Rightarrow> world \<Rightarrow> message list \<Rightarrow> py_exception + pystr" where
  "openai_attempt cfg w msgs =
     (case openai_create w (openai_request_of cfg msgs) of
        Inl e \<Rightarrow> Inl e
      | Inr choices \<Rightarrow>
          (case choices of
             [] \<Rightarrow> Inl IndexError
           | c # _ \<Rightarrow> (case c of None \<Rightarrow> Inl AttributeError | Some text \<Rightarrow> Inr (strip text))))"

text \<open>
  The body of the second \<^verbatim>\<open>try\<close>: the request, the test of the response's form
  (\<^verbatim>\<open>and\<close> stops at the first operand that is false), the content or the first 800
  characters of the serialised response.
\<close>

definition ollama_request_of :: "config \<Rightarrow> message list \<Rightarrow> ollama_request" where
  "ollama_request_of cfg msgs =
     \<lparr>url = str ''http://127.0.0.1:11434/api/chat'', ollama_model = OLLAMA_MODEL cfg,
      ollama_messages = msgs, timeout = 60\<rparr>"

definition ollama_attempt :: "config \<Rightarrow> world \<Rightarrow> message list \<Rightarrow> py_exception + pystr" where
  "ollama_attempt cfg w msgs =
     (case ollama_chat w (ollama_request_of cfg msgs) of
        Inl e \<Rightarrow> Inl e
      | Inr data \<Rightarrow>
          (case data of
             JObj kvs \<Rightarrow>
               (case map_of kvs (str ''message'') of
                  None \<Rightarrow> Inr (take 800 (json_dumps data))
                | Some m \<Rightarrow>
                    (case json_in (str ''content'') m of
                       Inl e \<Rightarrow> Inl e
                     | Inr False \<Rightarrow> Inr (take 800 (json_dumps data))
                     | Inr True \<Rightarrow>
                         (case json_getitem m (str ''content'') of
                            Inl e \<Rightarrow> Inl e
                          | Inr c \<Rightarrow> json_strip c)))
           | _ \<Rightarrow> Inr (take 800 (json_dumps data))))"

text \<open>
  One \<^verbatim>\<open>try: ... return ... except Exception as e: logger.warning(...)\<close> block
  followed by the rest of the function: a result is returned at once; an \<^verbatim>\<open>Exception\<close>
  is logged and the rest runs; any other exception leaves the function.
\<close>

definition try_provider ::
  "effect \<Rightarrow> string \<Rightarrow> py_exception + pystr \<Rightarrow> (py_exception + pystr) \<times> effect list \<Rightarrow>
   (py_exception + pystr) \<times> effect list" where
  "try_provider call tag attempt rest =
     (case attempt of
        Inr reply \<Rightarrow> (Inr reply, [call])
      | Inl e \<Rightarrow>
          if is_Exception e then (fst rest, [call, LogWarning tag e] @ snd rest)
          else (Inl e, [call]))"

definition offline_reply :: "pystr \<Rightarrow> pystr" where
  "offline_reply user_text = offline_head @ user_text @ offline_tail"

text \<open>
  The prompt: the system instruction, the remembered transcript, the new message.
  The function returns the reply, or the exception that leaves it, with the calls
  and warnings made on the way.
\<close>

definition build_messages :: "config \<Rightarrow> user_data \<Rightarrow> pystr \<Rightarrow> message list" where
  "build_messages cfg ud user_text =
     [\<lparr>role = str ''system'', content = system_prompt cfg\<rparr>] @ get_mem ud @
     [\<lparr>role = str ''user'', content = user_text\<rparr>]"

definition ai_generate_reply ::
  "config \<Rightarrow> world \<Rightarrow> pystr \<Rightarrow> user_data \<Rightarrow> (py_exception + pystr) \<times> effect list" where
  "ai_generate_reply cfg w user_text ud =
     (let msgs = build_messages cfg ud user_text;
          offline = (Inr (offline_reply user_text), []);
          ollama =
            (if USE_OLLAMA cfg
             then try_provider (CallOllama (ollama_request_of cfg msgs)) ''Ollama error''
                    (ollama_attempt cfg w msgs) offline
             else offline)
      in if key_configured cfg
         then try_provider (CallOpenAI (openai_request_of cfg msgs)) ''OpenAI error''
                (openai_attempt cfg w msgs) ollama
         else ollama)"

section \<open>Handlers\<close>

text \<open>
  \<^verbatim>\<open>(COLLECT_NAME, COLLECT_EMAIL, COLLECT_NOTE) = range(3)\<close>, and what a handler of the
  conversation returns: the next stage or \<^verbatim>\<open>ConversationHandler.END\<close>.
\<close>

datatype conv_state = COLLECT_NAME | COLLECT_EMAIL | COLLECT_NOTE

datatype conv_return = Stage conv_state | END

definition start :: "config \<Rightarrow> user_data \<Rightarrow> user_data \<times> effect list" where
  "start cfg ud =
     (add_user_memory ud (str ''assistant'') start_memory_text 6,
      [ReplyText (start_text_head @ COMPANY_NAME cfg @ start_text_tail)])"

definition services :: "effect list" where
  "services =
     [ReplyKeyboard services_prompt (map (\<lambda>(k, s). [(name s, str ''svc:'' @ k)]) SERVICES)]"

definition svc_message :: "service \<Rightarrow> pystr" where
  "svc_message s =
     svc_msg_1 @ name s @ svc_msg_2 @ desc s @ svc_msg_3 @ starts_from s @ svc_msg_4"

text \<open>
  \<^verbatim>\<open>query.data.split(":", 1)[1]\<close> raises \<^verbatim>\<open>IndexError\<close> on data without a colon.
  A catalog entry is a dict with three keys, so \<^verbatim>\<open>not s\<close> holds for \<^verbatim>\<open>None\<close> only.
\<close>

definition on_service_click :: "pystr \<Rightarrow> py_exception option \<times> effect list" where
  "on_service_click data =
     (let parts = split1 0x3A data
      in if length parts < 2 then (Some IndexError, [AnswerCallback])
         else
           (case map_of SERVICES (parts ! 1) of
              None \<Rightarrow> (None, [AnswerCallback, EditMessageText svc_error_text None])
            | Some s \<Rightarrow>
                (None, [AnswerCallback, EditMessageText (svc_message s) (Some ''Markdown'')])))"

definition contact_start :: "user_data \<Rightarrow> user_data \<times> effect list \<times> conv_return" where
  "contact_start ud =
     (ud\<lparr>lead_need := Some need_default\<rparr>, [ReplyText ask_name_text], Stage COLLECT_NAME)"

definition collect_name :: "pystr \<Rightarrow> user_data \<Rightarrow> user_data \<times> effect list \<times> conv_return" where
  "collect_name text ud =
     (ud\<lparr>lead_name := Some (strip text)\<rparr>, [ReplyText ask_email_text], Stage COLLECT_EMAIL)"

definition collect_email :: "pystr \<Rightarrow> user_data \<Rightarrow> user_data \<times> effect list \<times> conv_return" where
  "collect_email text ud =
     (let email = strip text
      in if \<not> re_match EMAIL_RE email
         then (ud, [ReplyText bad_email_text], Stage COLLECT_EMAIL)
         else (ud\<lparr>lead_email := Some email\<rparr>, [ReplyText ask_note_text], Stage COLLECT_NOTE))"

definition collect_note ::
  "world \<Rightarrow> update \<Rightarrow> pystr \<Rightarrow> user_data \<Rightarrow> file_system \<Rightarrow>
   file_system \<times> effect list \<times> conv_return" where
  "collect_note w upd text ud fs =
     (let note = strip text;
          nm = (case lead_name ud of None \<Rightarrow> [] | Some v \<Rightarrow> v);
          email = (case lead_email ud of None \<Rightarrow> [] | Some v \<Rightarrow> v);
          need = (case lead_need ud of None \<Rightarrow> need_default | Some v \<Rightarrow> v)
      in (save_lead (utcnow w) nm email need upd note fs, [ReplyText thanks_text], END))"

definition cancel :: "effect list \<times> conv_return" where
  "cancel = ([ReplyText cancel_text], END)"

text \<open>
  \<^verbatim>\<open>ai_reply\<close>: when \<^verbatim>\<open>ai_generate_reply\<close> raises, the handler ends there, after the
  first \<^verbatim>\<open>add_user_memory\<close>.
\<close>

definition ai_reply ::
  "config \<Rightarrow> world \<Rightarrow> pystr \<Rightarrow> user_data \<Rightarrow> user_data \<times> effect list \<times> py_exception option" where
  "ai_reply cfg w user_text ud =
     (let ud1 = add_user_memory ud (str ''user'') user_text 6
      in case ai_generate_reply cfg w user_text ud1 of
           (Inr reply, calls) \<Rightarrow>
             (add_user_memory ud1 (str ''assistant'') reply 6, calls @ [ReplyText reply], None)
         | (Inl e, calls) \<Rightarrow> (ud1, calls, Some e))"

section \<open>The application: which handler gets an update\<close>

text \<open>
  The library keeps one conversation stage for each pair of chat and user (absent
  when no conversation is active) and one \<^verbatim>\<open>user_data\<close> dict for each user.
\<close>

record bot_state =
  conversations :: "int \<times> int \<Rightarrow> conv_state option"
  users :: "int \<Rightarrow> user_data"
  files :: file_system

definition initial :: "file_system \<Rightarrow> bot_state" where
  "initial fs = \<lparr>conversations = (\<lambda>_. None), users = (\<lambda>_. empty_user_data), files = fs\<rparr>"

text \<open>A handler together with the text or data of the update it is called on.\<close>

datatype call =
    Start | Services | OnServiceClick pystr
  | ContactStart | CollectName pystr | CollectEmail pystr | CollectNote pystr | Cancel
  | AiReply pystr

text \<open>
  \<^verbatim>\<open>conv_handler\<close>: with no active conversation only the entry point is tried; in a
  stage, the handler of \<^verbatim>\<open>states\<close> for that stage takes a text that is not a command
  (\<^verbatim>\<open>filters.TEXT & ~filters.COMMAND\<close>), and what it does not take goes to the
  fallbacks.
\<close>

definition conv_handler :: "conv_state option \<Rightarrow> event \<Rightarrow> call option" where
  "conv_handler stage ev =
     (case stage of
        None \<Rightarrow> (if ev = Command (str ''contact'') then Some ContactStart else None)
      | Some st \<Rightarrow>
          (case ev of
             Text t \<Rightarrow>
               Some (case st of
                       COLLECT_NAME \<Rightarrow> CollectName t
                     | COLLECT_EMAIL \<Rightarrow> CollectEmail t
                     | COLLECT_NOTE \<Rightarrow> CollectNote t)
           | _ \<Rightarrow> (if ev = Command (str ''cancel'') then Some Cancel else None)))"

text \<open>
  \<^verbatim>\<open>main\<close> adds the handlers in this order to one group; the first that accepts the
  update handles it, and an update that none accepts is dropped.
\<close>

definition svc_pattern :: "piece list" where
  "svc_pattern = [Bol, One (Literal 0x73), One (Literal 0x76), One (Literal 0x63), One (Literal 0x3A)]"

definition dispatch :: "conv_state option \<Rightarrow> event \<Rightarrow> call option" where
  "dispatch stage ev =
     (if ev = Command (str ''start'') then Some Start
      else if ev = Command (str ''services'') then Some Services
      else if (case ev of CallbackQuery d \<Rightarrow> re_match svc_pattern d | _ \<Rightarrow> False)
        then Some (OnServiceClick (case ev of CallbackQuery d \<Rightarrow> d | _ \<Rightarrow> []))
      else
        (case conv_handler stage ev of
           Some c \<Rightarrow> Some c
         | None \<Rightarrow> (case ev of Text t \<Rightarrow> Some (AiReply t) | _ \<Rightarrow> None)))"

text \<open>The stage of the conversation after a handler of \<^verbatim>\<open>conv_handler\<close> returned.\<close>

fun next_stage :: "conv_return \<Rightarrow> conv_state option" where
  "next_stage (Stage st) = Some st"
| "next_stage END = None"

text \<open>
  One update: the new state, what the handler did to the outside, and the exception
  it raised, if any.
\<close>

definition step ::
  "config \<Rightarrow> world \<Rightarrow> bot_state \<Rightarrow> update \<Rightarrow> bot_state \<times> effect list \<times> py_exception option" where
  "step cfg w s upd =
     (let uid = user_id (effective_user upd);
          key = (chat_id upd, uid);
          ud = users s uid
      in case dispatch (conversations s key) (event upd) of
           None \<Rightarrow> (s, [], None)
         | Some Start \<Rightarrow>
             (case start cfg ud of (ud', out) \<Rightarrow> (s\<lparr>users := (users s)(uid := ud')\<rparr>, out, None))
         | Some Services \<Rightarrow> (s, services, None)
         | Some (OnServiceClick d) \<Rightarrow>
             (case on_service_click d of (exn, out) \<Rightarrow> (s, out, exn))
         | Some ContactStart \<Rightarrow>
             (case contact_start ud of
                (ud', out, r) \<Rightarrow>
                  (s\<lparr>conversations := (conversations s)(key := next_stage r),
                     users := (users s)(uid := ud')\<rparr>, out, None))
         | Some (CollectName t) \<Rightarrow>
             (case collect_name t ud of
                (ud', out, r) \<Rightarrow>
                  (s\<lparr>conversations := (conversations s)(key := next_stage r),
                     users := (users s)(uid := ud')\<rparr>, out, None))
         | Some (CollectEmail t) \<Rightarrow>
             (case collect_email t ud of
                (ud', out, r) \<Rightarrow>
                  (s\<lparr>conversations := (conversations s)(key := next_stage r),
                     users := (users s)(uid := ud')\<rparr>, out, None))
         | Some (CollectNote t) \<Rightarrow>
             (case collect_note w upd t ud (files s) of
                (fs', out, r) \<Rightarrow>
                  (s\<lparr>conversations := (conversations s)(key := next_stage r), files := fs'\<rparr>,
                   out, None))
         | Some Cancel \<Rightarrow>
             (case cancel of
                (out, r) \<Rightarrow> (s\<lparr>conversations := (conversations s)(key := next_stage r)\<rparr>, out, None))
         | Some (AiReply t) \<Rightarrow>
             (case ai_reply cfg w t ud of
                (ud', out, exn) \<Rightarrow> (s\<lparr>users := (users s)(uid := ud')\<rparr>, out, exn)))"

text \<open>A sequence of updates, each with the world at its time.\<close>

fun run :: "config \<Rightarrow> bot_state \<Rightarrow> (world \<times> update) list \<Rightarrow> bot_state" where
  "run cfg s [] = s"
| "run cfg s (wu # rest) = run cfg (fst (step cfg (fst wu) s (snd wu))) rest"

text \<open>The states the bot can be in: started with no conversation and no user data.\<close>

inductive reachable :: "config \<Rightarrow> bot_state \<Rightarrow> bool" for cfg where
  reachable_initial: "reachable cfg (initial fs)"
| reachable_step: "reachable cfg s \<Longrightarrow> reachable cfg (fst (step cfg w s upd))"

section \<open>Scenarios\<close>

text \<open>
  A sequence of \<^verbatim>\<open>add_user_memory\<close> calls with the default limit, each entry a role and
  a content.
\<close>

definition entry_of :: "pystr \<times> pystr \<Rightarrow> message" where
  "entry_of e = \<lparr>role = fst e, content = snd e\<rparr>"

definition remember_all :: "user_data \<Rightarrow> (pystr \<times> pystr) list \<Rightarrow> user_data" where
  "remember_all ud es = foldl (\<lambda>u e. add_user_memory u (fst e) (snd e) 6) ud es"

definition ten_entries :: "(pystr \<times> pystr) list" where
  "ten_entries =
     [(str ''user'', str ''1''), (str ''assistant'', str ''2''), (str ''user'', str ''3''),
      (str ''assistant'', str ''4''), (str ''user'', str ''5''), (str ''assistant'', str ''6''),
      (str ''user'', str ''7''), (str ''assistant'', str ''8''), (str ''user'', str ''9''),
      (str ''assistant'', str ''10'')]"

text \<open>Worlds: both backends fail; both answer; the hosted one times out and the local
  one answers with blank content.\<close>

definition failing_world :: world where
  "failing_world =
     \<lparr>utcnow = str ''2024-01-01T00:00:00'', openai_create = (\<lambda>_. Inl ConnectionError),
      ollama_chat = (\<lambda>_. Inl Timeout)\<rparr>"

definition answering_world :: world where
  "answering_world =
     \<lparr>utcnow = str ''2024-01-01T00:00:00'',
      openai_create = (\<lambda>_. Inr [Some (str '' Hello! '')]),
      ollama_chat = (\<lambda>_. Inr (JObj [(str ''error'', JStr (str ''model not found''))]))\<rparr>"

definition blank_world :: world where
  "blank_world =
     \<lparr>utcnow = str ''2024-01-01T00:00:00'', openai_create = (\<lambda>_. Inl Timeout),
      ollama_chat =
        (\<lambda>_. Inr (JObj [(str ''message'',
                         JObj [(str ''role'', JStr (str ''assistant'')),
                               (str ''content'', JStr (str '' ''))])]))\<rparr>"

definition hosted_config :: config where
  "hosted_config = default_config\<lparr>OPENAI_API_KEY := Some (str ''sk-test'')\<rparr>"

definition both_config :: config where
  "both_config = default_config\<lparr>OPENAI_API_KEY := Some (str ''sk-test''), USE_OLLAMA := True\<rparr>"

text \<open>A user, an update from that user, and the states of one collection flow.\<close>

definition ali :: tg_user where
  "ali = \<lparr>user_id = 42, username = Some (str ''ali'')\<rparr>"

definition from_ali :: "event \<Rightarrow> update" where
  "from_ali ev = \<lparr>chat_id = 42, effective_user = ali, event = ev\<rparr>"

definition after_name :: bot_state where
  "after_name =
     run default_config (initial Map.empty)
       [(failing_world, from_ali (Command (str ''contact''))),
        (failing_world, from_ali (Text (str ''Ali'')))]"

definition after_cancel :: bot_state where
  "after_cancel = fst (step default_config failing_world after_name (from_ali (Command (str ''cancel''))))"

definition after_email :: bot_state where
  "after_email =
     fst (step default_config failing_world after_name (from_ali (Text (str ''ali@example.com''))))"

definition after_note :: bot_state where
  "after_note =
     fst (step default_config failing_world after_email (from_ali (Text (str ''need a website''))))"

definition after_padded_email :: bot_state where
  "after_padded_email =
     fst (step default_config failing_world after_name (from_ali (Text (str '' a@b.c''))))"

text \<open>
  What the stages leave in the user's data: a need that is set is the default one, an
  e-mail that is set has the shape, and an active conversation has the fields of the
  stages before it.
\<close>

definition stage_inv :: "bot_state \<Rightarrow> bool" where
  "stage_inv s \<longleftrightarrow>
     (\<forall>u n. lead_need (users s u) = Some n \<longrightarrow> n = need_default) \<and>
     (\<forall>u e. lead_email (users s u) = Some e \<longrightarrow> email_shape e) \<and>
     (\<forall>c u st. conversations s (c, u) = Some st \<longrightarrow>
        lead_need (users s u) \<noteq> None \<and>
        (st \<noteq> COLLECT_NAME \<longrightarrow> lead_name (users s u) \<noteq> None) \<and>
        (st = COLLECT_NOTE \<longrightarrow> lead_email (users s u) \<noteq> None))"

section \<open>Lead store: initialisation\<close>

lemma ensure_leads_csv_present: "fs LEADS_CSV = Some rows \<Longrightarrow> ensure_leads_csv fs = fs"
  by (simp add: ensure_leads_csv_def)

lemma ensure_leads_csv_absent:
  "fs LEADS_CSV = None \<Longrightarrow> ensure_leads_csv fs = fs(LEADS_CSV \<mapsto> [HEADER])"
  by (simp add: ensure_leads_csv_def write_new_def)

text \<open>
  Claim C5. \<^verbatim>\<open>ensure_leads_csv\<close> creates the lead log, holding the header row alone,
  exactly when the log does not exist; a log that exists is left as it is, with all
  its rows, and no other file is touched. Calling it twice is the same as calling it
  once, so the header is never written a second time. The header row is
  timestamp, name, email, need, from, username, note: the column of the contact
  handle is labelled \<^verbatim>\<open>from\<close> in the file.
\<close>

theorem ensure_leads_csv_idempotent:
  "(fs LEADS_CSV = None \<longrightarrow> ensure_leads_csv fs = fs(LEADS_CSV \<mapsto> [HEADER])) \<and>
   (fs LEADS_CSV \<noteq> None \<longrightarrow> ensure_leads_csv fs = fs) \<and>
   (\<forall>p. p \<noteq> LEADS_CSV \<longrightarrow> ensure_leads_csv fs p = fs p) \<and>
   ensure_leads_csv (ensure_leads_csv fs) = ensure_leads_csv fs \<and>
   HEADER = [str ''timestamp'', str ''name'', str ''email'', str ''need'', str ''from'',
             str ''username'', str ''note'']"
  by (auto simp: ensure_leads_csv_def write_new_def HEADER_def)

theorem ensure_leads_csv_idempotent_witness:
  "ensure_leads_csv Map.empty = [LEADS_CSV \<mapsto> [HEADER]] \<and>
   ensure_leads_csv (ensure_leads_csv Map.empty) = [LEADS_CSV \<mapsto> [HEADER]] \<and>
   ensure_leads_csv [LEADS_CSV \<mapsto> [HEADER, [str ''row'']]] =
     [LEADS_CSV \<mapsto> [HEADER, [str ''row'']]] \<and>
   ensure_leads_csv [LEADS_CSV \<mapsto> []] ''other.csv'' = None"
  using ensure_leads_csv_idempotent [of Map.empty]
    ensure_leads_csv_idempotent [of "[LEADS_CSV \<mapsto> [HEADER, [str ''row'']]]"]
    ensure_leads_csv_idempotent [of "[LEADS_CSV \<mapsto> []]"]
  by (simp add: LEADS_CSV_def ensure_leads_csv_def write_new_def)

section \<open>Conversational memory: the window of six\<close>

lemma slice_from_last6: "slice_from (- 6) xs = drop (length xs - 6) xs"
  by (simp add: slice_from_def Let_def nat_diff_distrib' max_def)

lemma get_mem_add:
  "get_mem (add_user_memory ud r c 6) =
     drop (length (get_mem ud) + 1 - 6) (get_mem ud @ [\<lparr>role = r, content = c\<rparr>])"
  by (simp add: add_user_memory_def Let_def slice_from_last6 get_mem_def)

lemma length_get_mem_add: "length (get_mem (add_user_memory ud r c 6)) \<le> 6"
  by (simp add: get_mem_add)

lemma add_user_memory_leads:
  "lead_need (add_user_memory ud r c n) = lead_need ud"
  "lead_name (add_user_memory ud r c n) = lead_name ud"
  "lead_email (add_user_memory ud r c n) = lead_email ud"
  by (simp_all add: add_user_memory_def Let_def)

lemma remember_all_snoc:
  "remember_all ud (es @ [e]) = add_user_memory (remember_all ud es) (fst e) (snd e) 6"
  by (simp add: remember_all_def)

lemma window_snoc:
  "drop (length (drop (length xs - 6) xs) + 1 - 6) (drop (length xs - 6) xs @ [e]) =
     drop (length xs + 1 - 6) (xs @ [e])"
proof (cases "length xs \<le> 6")
  case True
  then show ?thesis by simp
next
  case False
  define k where "k = length xs - 6"
  have len: "length (drop k xs) = 6" "k \<le> length xs" "length xs + 1 - 6 = 1 + k"
    using False by (simp_all add: k_def)
  have "drop (length (drop k xs) + 1 - 6) (drop k xs @ [e]) = drop 1 (drop k (xs @ [e]))"
    using len by simp
  also have "\<dots> = drop (1 + k) (xs @ [e])"
    by (simp only: drop_drop)
  finally show ?thesis
    using len by (simp add: k_def)
qed

lemma get_mem_remember_all:
  "es \<noteq> [] \<Longrightarrow>
   get_mem (remember_all ud es) =
     drop (length (get_mem ud) + length es - 6) (get_mem ud @ map entry_of es)"
proof (induction es rule: rev_induct)
  case Nil
  then show ?case by simp
next
  case (snoc e es)
  show ?case
  proof (cases "es = []")
    case True
    then show ?thesis
      by (simp add: remember_all_snoc get_mem_add entry_of_def remember_all_def)
  next
    case False
    let ?X = "get_mem ud @ map entry_of es"
    have prev: "get_mem (remember_all ud es) = drop (length ?X - 6) ?X"
      using snoc.IH [OF False] by simp
    have "get_mem (remember_all ud (es @ [e])) =
            drop (length (drop (length ?X - 6) ?X) + 1 - 6) (drop (length ?X - 6) ?X @ [entry_of e])"
      by (simp only: remember_all_snoc get_mem_add prev entry_of_def)
    also have "\<dots> = drop (length ?X + 1 - 6) (?X @ [entry_of e])"
      by (rule window_snoc)
    finally show ?thesis by simp
  qed
qed

lemma get_mem_lead_update [simp]:
  "get_mem (ud\<lparr>lead_need := a\<rparr>) = get_mem ud"
  "get_mem (ud\<lparr>lead_name := b\<rparr>) = get_mem ud"
  "get_mem (ud\<lparr>lead_email := c\<rparr>) = get_mem ud"
  by (simp_all add: get_mem_def)

lemma step_users:
  "users (fst (step cfg w s upd)) =
     (let uid = user_id (effective_user upd); ud = users s uid
      in case dispatch (conversations s (chat_id upd, uid)) (event upd) of
           Some Start \<Rightarrow> (users s)(uid := fst (start cfg ud))
         | Some ContactStart \<Rightarrow> (users s)(uid := fst (contact_start ud))
         | Some (CollectName t) \<Rightarrow> (users s)(uid := fst (collect_name t ud))
         | Some (CollectEmail t) \<Rightarrow> (users s)(uid := fst (collect_email t ud))
         | Some (AiReply t) \<Rightarrow> (users s)(uid := fst (ai_reply cfg w t ud))
         | _ \<Rightarrow> users s)"
  by (simp add: step_def Let_def split: option.split call.split prod.split)

lemma ai_reply_mem_bound: "length (get_mem (fst (ai_reply cfg w t ud))) \<le> 6"
  by (simp add: ai_reply_def Let_def length_get_mem_add split: prod.split sum.split)

lemma step_memory_bound:
  assumes "\<forall>u. length (get_mem (users s u)) \<le> 6"
  shows "length (get_mem (users (fst (step cfg w s upd)) u)) \<le> 6"
  using assms
  by (simp add: step_users Let_def start_def contact_start_def collect_name_def
        collect_email_def length_get_mem_add ai_reply_mem_bound
      split: option.split call.split)

lemma reachable_memory_bound:
  "reachable cfg s \<Longrightarrow> \<forall>u. length (get_mem (users s u)) \<le> 6"
proof (induction rule: reachable.induct)
  case (reachable_initial fs)
  then show ?case by (simp add: initial_def empty_user_data_def get_mem_def)
next
  case (reachable_step s w upd)
  then show ?case using step_memory_bound by blast
qed

text \<open>
  Claim C3. With the default limit, the memory of a user never holds more than six
  entries: after any sequence of \<^verbatim>\<open>add_user_memory\<close> calls on an empty memory, and
  after at least one call on any memory, the transcript is the last six entries of
  the old transcript followed by the new entries, in the order they were added (the
  oldest are the ones dropped). In every state the bot can reach, every user's
  memory has at most six entries. Ten entries leave entries 5 to 10, in order.
\<close>

theorem memory_window:
  "length (get_mem (remember_all empty_user_data es)) \<le> 6 \<and>
   get_mem (remember_all empty_user_data es) = drop (length es - 6) (map entry_of es) \<and>
   (es \<noteq> [] \<longrightarrow>
      length (get_mem (remember_all ud es)) \<le> 6 \<and>
      get_mem (remember_all ud es) =
        drop (length (get_mem ud) + length es - 6) (get_mem ud @ map entry_of es)) \<and>
   (reachable cfg s \<longrightarrow> length (get_mem (users s u)) \<le> 6)"
proof -
  have general: "es \<noteq> [] \<Longrightarrow> get_mem (remember_all ud es) =
      drop (length (get_mem ud) + length es - 6) (get_mem ud @ map entry_of es)" for ud
    by (rule get_mem_remember_all)
  have from_empty: "get_mem (remember_all empty_user_data es) = drop (length es - 6) (map entry_of es)"
  proof (cases "es = []")
    case True
    then show ?thesis by (simp add: remember_all_def empty_user_data_def get_mem_def)
  next
    case False
    then show ?thesis using general [of empty_user_data]
      by (simp add: empty_user_data_def get_mem_def)
  qed
  show ?thesis
    using general [of ud] from_empty reachable_memory_bound [of cfg s] by auto
qed

theorem memory_window_witness:
  "get_mem (remember_all empty_user_data ten_entries) =
     [\<lparr>role = str ''user'', content = str ''5''\<rparr>, \<lparr>role = str ''assistant'', content = str ''6''\<rparr>,
      \<lparr>role = str ''user'', content = str ''7''\<rparr>, \<lparr>role = str ''assistant'', content = str ''8''\<rparr>,
      \<lparr>role = str ''user'', content = str ''9''\<rparr>, \<lparr>role = str ''assistant'', content = str ''10''\<rparr>] \<and>
   length (get_mem (users (initial Map.empty) 42)) \<le> 6"
  using memory_window [of ten_entries empty_user_data default_config "initial Map.empty" 42]
    reachable_initial [of default_config Map.empty]
  by (simp add: ten_entries_def entry_of_def)

section \<open>Response provider chain: order, fall-through, determinism\<close>

lemma digits10_nonempty: "digits10 n \<noteq> []"
  by (subst digits10.simps) simp

lemma str_of_int_nonempty: "str_of_int i \<noteq> []"
  by (simp add: str_of_int_def digits10_nonempty)

lemma json_dumps_nonempty: "json_dumps d \<noteq> []"
  by (cases d) (simp_all add: str_of_int_nonempty json_quote_def str_def)

lemma take_dumps_nonempty: "take 800 (json_dumps d) \<noteq> []"
  using json_dumps_nonempty [of d] by (cases "json_dumps d") simp_all

lemma offline_head_nonempty: "offline_head \<noteq> []"
  by (simp add: offline_head_def)

lemma offline_reply_nonempty: "offline_reply t \<noteq> []"
  by (simp add: offline_reply_def offline_head_nonempty)

lemma ai_generate_reply_offline:
  "\<not> key_configured cfg \<Longrightarrow> \<not> USE_OLLAMA cfg \<Longrightarrow>
   ai_generate_reply cfg w t ud = (Inr (offline_reply t), [])"
  by (simp add: ai_generate_reply_def Let_def)

lemma ai_generate_reply_openai_ok:
  "key_configured cfg \<Longrightarrow> openai_attempt cfg w (build_messages cfg ud t) = Inr out \<Longrightarrow>
   ai_generate_reply cfg w t ud =
     (Inr out, [CallOpenAI (openai_request_of cfg (build_messages cfg ud t))])"
  by (simp add: ai_generate_reply_def Let_def try_provider_def)

lemma ai_generate_reply_openai_fail_no_ollama:
  "key_configured cfg \<Longrightarrow> openai_attempt cfg w (build_messages cfg ud t) = Inl e \<Longrightarrow>
   is_Exception e \<Longrightarrow> \<not> USE_OLLAMA cfg \<Longrightarrow>
   ai_generate_reply cfg w t ud =
     (Inr (offline_reply t),
      [CallOpenAI (openai_request_of cfg (build_messages cfg ud t)), LogWarning ''OpenAI error'' e])"
  by (simp add: ai_generate_reply_def Let_def try_provider_def)

lemma openai_attempt_content:
  "openai_create w (openai_request_of cfg msgs) = Inr (Some c # others) \<Longrightarrow>
   openai_attempt cfg w msgs = Inr (strip c)"
  by (simp add: openai_attempt_def)

lemma openai_attempt_ollama_irrelevant:
  "openai_attempt cfg (w\<lparr>ollama_chat := f\<rparr>) msgs = openai_attempt cfg w msgs"
  by (simp add: openai_attempt_def)

text \<open>
  Claim C9. With no hosted credential configured and the local provider disabled,
  \<^verbatim>\<open>ai_generate_reply\<close> is deterministic: the reply is the offline template around the
  user's text, whatever the backends would have answered, so two calls with the same
  text and the same memory return the same string. No backend is called.
\<close>

theorem offline_deterministic:
  assumes "\<not> key_configured cfg" and "\<not> USE_OLLAMA cfg"
  shows "ai_generate_reply cfg w1 t ud = ai_generate_reply cfg w2 t ud \<and>
         ai_generate_reply cfg w1 t ud = (Inr (offline_head @ t @ offline_tail), [])"
  using assms by (simp add: ai_generate_reply_offline offline_reply_def)

theorem offline_deterministic_witness:
  "\<not> key_configured default_config \<and> \<not> USE_OLLAMA default_config \<and>
   ai_generate_reply default_config failing_world (str ''hello'') empty_user_data =
     (Inr (offline_head @ str ''hello'' @ offline_tail), []) \<and>
   ai_generate_reply default_config answering_world (str ''hello'') empty_user_data =
     (Inr (offline_head @ str ''hello'' @ offline_tail), [])"
  using offline_deterministic [where cfg = default_config and ?w1.0 = failing_world
      and ?w2.0 = answering_world and t = "str ''hello''" and ud = empty_user_data]
  by (auto simp: default_config_def key_configured_def)

text \<open>
  Claim C4. The providers are tried in a fixed order and the first success wins.
  When the hosted provider is configured and its attempt returns a text (the content
  of the first choice, stripped, as the \<^verbatim>\<open>try\<close> block returns it), that text is the
  reply, the only call made is the one to the hosted API, and the reply does not
  depend on what the local backend would have done. When the hosted attempt fails
  and the local provider is disabled, the reply is the offline template, which holds
  the user's text verbatim between its fixed head and tail.
\<close>

theorem provider_priority:
  "(key_configured cfg \<and> openai_attempt cfg w (build_messages cfg ud t) = Inr out \<longrightarrow>
      ai_generate_reply cfg w t ud =
        (Inr out, [CallOpenAI (openai_request_of cfg (build_messages cfg ud t))]) \<and>
      ai_generate_reply cfg (w\<lparr>ollama_chat := other\<rparr>) t ud = ai_generate_reply cfg w t ud) \<and>
   (openai_create w (openai_request_of cfg (build_messages cfg ud t)) = Inr (Some c # others) \<longrightarrow>
      openai_attempt cfg w (build_messages cfg ud t) = Inr (strip c)) \<and>
   (key_configured cfg \<and> openai_attempt cfg w (build_messages cfg ud t) = Inl e \<and>
    is_Exception e \<and> \<not> USE_OLLAMA cfg \<longrightarrow>
      ai_generate_reply cfg w t ud =
        (Inr (offline_head @ t @ offline_tail),
         [CallOpenAI (openai_request_of cfg (build_messages cfg ud t)),
          LogWarning ''OpenAI error'' e]))"
proof (intro conjI impI)
  assume a: "key_configured cfg \<and> openai_attempt cfg w (build_messages cfg ud t) = Inr out"
  then show "ai_generate_reply cfg w t ud =
        (Inr out, [CallOpenAI (openai_request_of cfg (build_messages cfg ud t))])"
    by (simp add: ai_generate_reply_openai_ok)
  from a have "openai_attempt cfg (w\<lparr>ollama_chat := other\<rparr>) (build_messages cfg ud t) = Inr out"
    by (simp add: openai_attempt_ollama_irrelevant)
  with a show "ai_generate_reply cfg (w\<lparr>ollama_chat := other\<rparr>) t ud = ai_generate_reply cfg w t ud"
    by (simp add: ai_generate_reply_openai_ok)
next
  assume "openai_create w (openai_request_of cfg (build_messages cfg ud t)) = Inr (Some c # others)"
  then show "openai_attempt cfg w (build_messages cfg ud t) = Inr (strip c)"
    by (rule openai_attempt_content)
next
  assume "key_configured cfg \<and> openai_attempt cfg w (build_messages cfg ud t) = Inl e \<and>
    is_Exception e \<and> \<not> USE_OLLAMA cfg"
  then show "ai_generate_reply cfg w t ud =
        (Inr (offline_head @ t @ offline_tail),
         [CallOpenAI (openai_request_of cfg (build_messages cfg ud t)),
          LogWarning ''OpenAI error'' e])"
    by (simp add: ai_generate_reply_openai_fail_no_ollama offline_reply_def)
qed

theorem provider_priority_witness:
  "key_configured both_config \<and>
   ai_generate_reply both_config answering_world (str ''hi'') empty_user_data =
     (Inr (str ''Hello!''),
      [CallOpenAI (openai_request_of both_config (build_messages both_config empty_user_data (str ''hi'')))]) \<and>
   key_configured hosted_config \<and> \<not> USE_OLLAMA hosted_config \<and>
   ai_generate_reply hosted_config failing_world (str ''hi'') empty_user_data =
     (Inr (offline_head @ str ''hi'' @ offline_tail),
      [CallOpenAI (openai_request_of hosted_config (build_messages hosted_config empty_user_data (str ''hi''))),
       LogWarning ''OpenAI error'' ConnectionError])"
  using provider_priority [where cfg = both_config and w = answering_world and ud = empty_user_data
      and t = "str ''hi''" and out = "str ''Hello!''" and c = "str '' Hello! ''" and others = "[]"
      and e = ConnectionError and other = "ollama_chat answering_world"]
    provider_priority [where cfg = hosted_config and w = failing_world and ud = empty_user_data
      and t = "str ''hi''" and out = "[]" and c = "[]" and others = "[]"
      and e = ConnectionError and other = "ollama_chat failing_world"]
  by (simp add: both_config_def hosted_config_def default_config_def key_configured_def
        answering_world_def failing_world_def openai_attempt_def str_def
        strip_def lstrip_def rstrip_def is_space_def)

lemma openai_attempt_exn:
  assumes "\<forall>req e. openai_create w req = Inl e \<longrightarrow> is_Exception e"
      and "openai_attempt cfg w msgs = Inl e"
  shows "is_Exception e"
  using assms
  by (auto simp: openai_attempt_def split: sum.splits list.splits option.splits)

lemma json_in_exn: "json_in k v = Inl e \<Longrightarrow> is_Exception e"
  by (cases v) auto

lemma json_getitem_exn: "json_getitem v k = Inl e \<Longrightarrow> is_Exception e"
  by (cases v) (auto split: option.splits)

lemma json_strip_exn: "json_strip v = Inl e \<Longrightarrow> is_Exception e"
  by (cases v) auto

lemma json_strip_empty: "json_strip v = Inr [] \<Longrightarrow> \<exists>c. v = JStr c \<and> strip c = []"
  by (cases v) auto

lemma ollama_attempt_exn:
  assumes "\<forall>req e. ollama_chat w req = Inl e \<longrightarrow> is_Exception e"
      and "ollama_attempt cfg w msgs = Inl e"
  shows "is_Exception e"
  using assms
  by (auto simp: ollama_attempt_def json_in_exn json_getitem_exn json_strip_exn
      split: sum.splits json.splits option.splits bool.splits)

lemma openai_attempt_empty:
  assumes "openai_attempt cfg w msgs = Inr []"
  shows "\<exists>c others. openai_create w (openai_request_of cfg msgs) = Inr (Some c # others) \<and>
                    strip c = []"
  using assms
  by (auto simp: openai_attempt_def split: sum.splits list.splits option.splits)

lemma ollama_attempt_empty:
  assumes "ollama_attempt cfg w msgs = Inr []"
  shows "\<exists>kvs m c. ollama_chat w (ollama_request_of cfg msgs) = Inr (JObj kvs) \<and>
                   map_of kvs (str ''message'') = Some m \<and>
                   json_getitem m (str ''content'') = Inr (JStr c) \<and> strip c = []"
  using assms
  by (auto simp: ollama_attempt_def json_dumps_nonempty simp del: json_dumps.simps
      dest!: json_strip_empty
      split: sum.splits json.splits option.splits bool.splits)

lemma reply_from_ollama:
  assumes "\<not> key_configured cfg \<or>
           (\<exists>e. openai_attempt cfg w (build_messages cfg ud t) = Inl e \<and> is_Exception e)"
      and "USE_OLLAMA cfg"
      and "ollama_attempt cfg w (build_messages cfg ud t) = Inr r"
  shows "fst (ai_generate_reply cfg w t ud) = Inr r"
  using assms by (auto simp: ai_generate_reply_def Let_def try_provider_def)

lemma reply_offline:
  assumes "\<not> key_configured cfg \<or>
           (\<exists>e. openai_attempt cfg w (build_messages cfg ud t) = Inl e \<and> is_Exception e)"
      and "\<not> USE_OLLAMA cfg \<or>
           (\<exists>e. ollama_attempt cfg w (build_messages cfg ud t) = Inl e \<and> is_Exception e)"
  shows "fst (ai_generate_reply cfg w t ud) = Inr (offline_reply t)"
  using assms by (auto simp: ai_generate_reply_def Let_def try_provider_def)

lemma reply_from_openai:
  assumes "key_configured cfg" and "openai_attempt cfg w (build_messages cfg ud t) = Inr r"
  shows "fst (ai_generate_reply cfg w t ud) = Inr r"
  using assms by (simp add: ai_generate_reply_openai_ok)

text \<open>
  Claim C7, as stated, fails: the reply can be empty. Here the hosted provider times
  out (a failure that is absorbed) and the local provider answers with a content that
  is a single space; the reply is the empty string.
\<close>

theorem empty_reply_counterexample:
  "is_Exception Timeout \<and>
   openai_attempt both_config blank_world
     (build_messages both_config empty_user_data (str ''hi'')) = Inl Timeout \<and>
   fst (ai_generate_reply both_config blank_world (str ''hi'') empty_user_data) = Inr []"
  by (simp add: ai_generate_reply_def Let_def try_provider_def both_config_def default_config_def
        key_configured_def blank_world_def openai_attempt_def ollama_attempt_def str_def
        strip_def lstrip_def rstrip_def is_space_def)

text \<open>
  Claim C7, amended. Whatever \<^verbatim>\<open>Exception\<close> the backends raise (network error, timeout,
  malformed response), \<^verbatim>\<open>ai_generate_reply\<close> raises nothing and returns a reply. A
  failed attempt falls through to the next provider: when every enabled provider
  fails, the reply is the offline template around the user's text; when the hosted
  provider is off or fails and the local one returns a text, that text is the reply.
  The reply is empty only when a provider that did not fail returned blank content
  (nothing but whitespace); in particular the offline template is never empty.
\<close>

theorem provider_failures_absorbed:
  assumes hosted: "\<forall>req e. openai_create w req = Inl e \<longrightarrow> is_Exception e"
      and locl: "\<forall>req e. ollama_chat w req = Inl e \<longrightarrow> is_Exception e"
  shows "\<exists>reply.
           fst (ai_generate_reply cfg w t ud) = Inr reply \<and>
           ((key_configured cfg \<longrightarrow>
               (\<exists>e. openai_attempt cfg w (build_messages cfg ud t) = Inl e)) \<and>
            (USE_OLLAMA cfg \<longrightarrow>
               (\<exists>e. ollama_attempt cfg w (build_messages cfg ud t) = Inl e)) \<longrightarrow>
              reply = offline_head @ t @ offline_tail) \<and>
           ((key_configured cfg \<longrightarrow>
               (\<exists>e. openai_attempt cfg w (build_messages cfg ud t) = Inl e)) \<and>
            USE_OLLAMA cfg \<longrightarrow>
              (\<forall>r. ollama_attempt cfg w (build_messages cfg ud t) = Inr r \<longrightarrow> reply = r)) \<and>
           (reply = [] \<longrightarrow>
              (key_configured cfg \<and>
               (\<exists>c others.
                  openai_create w (openai_request_of cfg (build_messages cfg ud t)) =
                    Inr (Some c # others) \<and> strip c = [])) \<or>
              (USE_OLLAMA cfg \<and>
               (\<exists>kvs m c.
                  ollama_chat w (ollama_request_of cfg (build_messages cfg ud t)) = Inr (JObj kvs) \<and>
                  map_of kvs (str ''message'') = Some m \<and>
                  json_getitem m (str ''content'') = Inr (JStr c) \<and> strip c = [])))"
proof -
  let ?m = "build_messages cfg ud t"
  have oe: "is_Exception e" if "openai_attempt cfg w ?m = Inl e" for e
    using hosted that by (rule openai_attempt_exn)
  have le: "is_Exception e" if "ollama_attempt cfg w ?m = Inl e" for e
    using locl that by (rule ollama_attempt_exn)
  have off: "offline_reply t \<noteq> []" by (rule offline_reply_nonempty)
  show ?thesis
  proof (cases "key_configured cfg \<and> (\<exists>r. openai_attempt cfg w ?m = Inr r)")
    case True
    then obtain r where r: "key_configured cfg" "openai_attempt cfg w ?m = Inr r" by blast
    have "fst (ai_generate_reply cfg w t ud) = Inr r"
      using r by (rule reply_from_openai)
    moreover have "r = [] \<Longrightarrow> \<exists>c others.
        openai_create w (openai_request_of cfg ?m) = Inr (Some c # others) \<and> strip c = []"
      using r(2) openai_attempt_empty by blast
    ultimately show ?thesis using r by auto
  next
    case False
    then have h: "\<not> key_configured cfg \<or> (\<exists>e. openai_attempt cfg w ?m = Inl e \<and> is_Exception e)"
      using oe by (cases "openai_attempt cfg w ?m") auto
    show ?thesis
    proof (cases "USE_OLLAMA cfg \<and> (\<exists>r. ollama_attempt cfg w ?m = Inr r)")
      case True
      then obtain r where r: "USE_OLLAMA cfg" "ollama_attempt cfg w ?m = Inr r" by blast
      have "fst (ai_generate_reply cfg w t ud) = Inr r"
        using h r by (rule reply_from_ollama)
      moreover have "r = [] \<Longrightarrow> \<exists>kvs m c.
          ollama_chat w (ollama_request_of cfg ?m) = Inr (JObj kvs) \<and>
          map_of kvs (str ''message'') = Some m \<and>
          json_getitem m (str ''content'') = Inr (JStr c) \<and> strip c = []"
        using r(2) ollama_attempt_empty by blast
      ultimately show ?thesis using r by auto
    next
      case False
      then have l: "\<not> USE_OLLAMA cfg \<or> (\<exists>e. ollama_attempt cfg w ?m = Inl e \<and> is_Exception e)"
        using le by (cases "ollama_attempt cfg w ?m") auto
      have "fst (ai_generate_reply cfg w t ud) = Inr (offline_reply t)"
        using h l by (rule reply_offline)
      then show ?thesis using off False by (auto simp: offline_reply_def)
    qed
  qed
qed

theorem provider_failures_absorbed_witness:
  "fst (ai_generate_reply both_config failing_world (str ''hi'') empty_user_data) =
     Inr (offline_head @ str ''hi'' @ offline_tail) \<and>
   offline_head @ str ''hi'' @ offline_tail \<noteq> []"
proof -
  have hosted: "\<forall>req e. openai_create failing_world req = Inl e \<longrightarrow> is_Exception e"
    by (simp add: failing_world_def)
  have locl: "\<forall>req e. ollama_chat failing_world req = Inl e \<longrightarrow> is_Exception e"
    by (simp add: failing_world_def)
  have f1: "openai_attempt both_config failing_world
              (build_messages both_config empty_user_data (str ''hi'')) = Inl ConnectionError"
    by (simp add: openai_attempt_def failing_world_def)
  have f2: "ollama_attempt both_config failing_world
              (build_messages both_config empty_user_data (str ''hi'')) = Inl Timeout"
    by (simp add: ollama_attempt_def failing_world_def)
  from provider_failures_absorbed [OF hosted locl, of both_config "str ''hi''" empty_user_data]
  obtain reply where
    r: "fst (ai_generate_reply both_config failing_world (str ''hi'') empty_user_data) = Inr reply"
    and off: "(key_configured both_config \<longrightarrow>
                 (\<exists>e. openai_attempt both_config failing_world
                        (build_messages both_config empty_user_data (str ''hi'')) = Inl e)) \<and>
              (USE_OLLAMA both_config \<longrightarrow>
                 (\<exists>e. ollama_attempt both_config failing_world
                        (build_messages both_config empty_user_data (str ''hi'')) = Inl e)) \<longrightarrow>
              reply = offline_head @ str ''hi'' @ offline_tail"
    by (elim exE conjE) (rule that, assumption+)
  from off f1 f2 have "reply = offline_head @ str ''hi'' @ offline_tail"
    by simp
  with r show ?thesis
    by (simp add: offline_head_nonempty)
qed

section \<open>Dispatch and the steps of the conversation\<close>

lemma piece_ends_One:
  "piece_ends (One x) (pos, s) =
     (case s of [] \<Rightarrow> [] | c # cs \<Rightarrow> if single_ok x c then [(Suc pos, cs)] else [])"
  by (cases s) simp_all

lemma svc_pattern_iff: "re_match svc_pattern d \<longleftrightarrow> (\<exists>key. d = str ''svc:'' @ key)"
  by (auto simp: re_match_def svc_pattern_def piece_ends_One str_def split: list.splits if_splits)

lemma split1_svc: "split1 0x3A (str ''svc:'' @ key) = [str ''svc'', key]"
  by (simp add: split1_def str_def)

lemma on_service_click_svc:
  "on_service_click (str ''svc:'' @ key) =
     (case map_of SERVICES key of
        None \<Rightarrow> (None, [AnswerCallback, EditMessageText svc_error_text None])
      | Some e \<Rightarrow> (None, [AnswerCallback, EditMessageText (svc_message e) (Some ''Markdown'')]))"
  by (simp add: on_service_click_def split1_svc Let_def)

lemma str_inject: "str a = str b \<longleftrightarrow> a = b"
  by (simp add: str_def inj_map_eq_map inj_on_def)

lemma dispatch_callback:
  "dispatch stage (CallbackQuery d) = (if re_match svc_pattern d then Some (OnServiceClick d) else None)"
  by (simp add: dispatch_def conv_handler_def split: option.splits)

lemma dispatch_cancel:
  "dispatch (Some st) (Command (str ''cancel'')) = Some Cancel"
  by (simp add: dispatch_def conv_handler_def str_inject)

lemma dispatch_text:
  "dispatch stage (Text t) =
     Some (case stage of None \<Rightarrow> AiReply t | Some COLLECT_NAME \<Rightarrow> CollectName t
           | Some COLLECT_EMAIL \<Rightarrow> CollectEmail t | Some COLLECT_NOTE \<Rightarrow> CollectNote t)"
  by (simp add: dispatch_def conv_handler_def split: option.splits conv_state.splits)

lemma dispatch_command:
  "dispatch stage (Command c) =
     (if c = str ''start'' then Some Start
      else if c = str ''services'' then Some Services
      else if stage = None \<and> c = str ''contact'' then Some ContactStart
      else if stage \<noteq> None \<and> c = str ''cancel'' then Some Cancel
      else None)"
  by (auto simp: dispatch_def conv_handler_def split: option.splits)


lemma step_cancel:
  assumes "conversations s (chat_id upd, user_id (effective_user upd)) = Some st"
      and "event upd = Command (str ''cancel'')"
  shows "step cfg w s upd =
           (s\<lparr>conversations := (conversations s)((chat_id upd, user_id (effective_user upd)) := None)\<rparr>,
            [ReplyText cancel_text], None)"
  using assms by (simp add: step_def dispatch_cancel cancel_def Let_def)

lemma step_collect_note:
  assumes "conversations s (chat_id upd, user_id (effective_user upd)) = Some COLLECT_NOTE"
      and "event upd = Text t"
  shows "step cfg w s upd =
           (s\<lparr>conversations := (conversations s)((chat_id upd, user_id (effective_user upd)) := None),
              files := fst (collect_note w upd t (users s (user_id (effective_user upd))) (files s))\<rparr>,
            [ReplyText thanks_text], None)"
  using assms by (simp add: step_def dispatch_text collect_note_def Let_def)

lemma step_callback:
  assumes "event upd = CallbackQuery d" and "re_match svc_pattern d"
  shows "step cfg w s upd = (s, snd (on_service_click d), fst (on_service_click d))"
  using assms by (simp add: step_def dispatch_callback Let_def split: prod.splits)

lemma after_name_eq:
  "after_name =
     \<lparr>conversations = (\<lambda>_. None)((42, 42) := Some COLLECT_EMAIL),
      users = (\<lambda>_. empty_user_data)
        (42 := \<lparr>mem = None, lead_need = Some need_default, lead_name = Some (str ''Ali''),
                lead_email = None\<rparr>),
      files = Map.empty\<rparr>"
  by (simp add: after_name_def initial_def step_def dispatch_command dispatch_text Let_def
        from_ali_def ali_def contact_start_def collect_name_def empty_user_data_def
        str_def strip_def lstrip_def rstrip_def is_space_def)

lemma email_ali: "re_match EMAIL_RE (str ''ali@example.com'')"
  by (simp add: re_match_def EMAIL_RE_def str_def is_space_def)

lemma strip_email_ali: "strip (str ''ali@example.com'') = str ''ali@example.com''"
  by (simp add: str_def strip_def lstrip_def rstrip_def is_space_def)

lemma after_email_eq:
  "after_email =
     \<lparr>conversations = (\<lambda>_. None)((42, 42) := Some COLLECT_NOTE),
      users = (\<lambda>_. empty_user_data)
        (42 := \<lparr>mem = None, lead_need = Some need_default, lead_name = Some (str ''Ali''),
                lead_email = Some (str ''ali@example.com'')\<rparr>),
      files = Map.empty\<rparr>"
  by (simp add: after_email_def after_name_eq step_def dispatch_text Let_def
        from_ali_def ali_def collect_email_def strip_email_ali email_ali)

text \<open>
  Claim C6. A catalog-selection callback is a callback whose data matches
  \<^verbatim>\<open>^svc:\<close>; the selected key is the text after the colon. When the key is in
  \<^verbatim>\<open>SERVICES\<close>, the handler edits the message to a text holding that entry's name,
  description and starting price; when it is not, to the generic error text. In both
  cases the handler raises nothing and the state is unchanged.
\<close>

theorem catalog_lookup:
  assumes "event upd = CallbackQuery d" and "re_match svc_pattern d"
  shows "\<exists>key. d = str ''svc:'' @ key \<and>
           (map_of SERVICES key = None \<longrightarrow>
              step cfg w s upd = (s, [AnswerCallback, EditMessageText svc_error_text None], None)) \<and>
           (\<forall>e. map_of SERVICES key = Some e \<longrightarrow>
              step cfg w s upd =
                (s, [AnswerCallback,
                     EditMessageText
                       (svc_msg_1 @ name e @ svc_msg_2 @ desc e @ svc_msg_3 @ starts_from e @ svc_msg_4)
                       (Some ''Markdown'')], None))"
proof -
  from assms(2) obtain key where key: "d = str ''svc:'' @ key"
    by (auto simp: svc_pattern_iff)
  have "step cfg w s upd = (s, snd (on_service_click d), fst (on_service_click d))"
    using assms by (rule step_callback)
  then show ?thesis
    using key by (auto simp: on_service_click_svc svc_message_def)
qed

theorem catalog_lookup_witness:
  "step default_config failing_world (initial Map.empty) (from_ali (CallbackQuery (str ''svc:web''))) =
     (initial Map.empty,
      [AnswerCallback,
       EditMessageText
         (svc_msg_1 @ name (snd (SERVICES ! 0)) @ svc_msg_2 @ desc (snd (SERVICES ! 0)) @
          svc_msg_3 @ str ''1000$'' @ svc_msg_4)
         (Some ''Markdown'')], None) \<and>
   step default_config failing_world (initial Map.empty) (from_ali (CallbackQuery (str ''svc:seo''))) =
     (initial Map.empty, [AnswerCallback, EditMessageText svc_error_text None], None)"
proof -
  have web: "re_match svc_pattern (str ''svc:web'')" and seo: "re_match svc_pattern (str ''svc:seo'')"
    by (simp_all add: svc_pattern_iff str_def)
  have ev: "event (from_ali (CallbackQuery d)) = CallbackQuery d" for d
    by (simp add: from_ali_def)
  have present: "map_of SERVICES (str ''web'') = Some (snd (SERVICES ! 0))"
    and price: "starts_from (snd (SERVICES ! 0)) = str ''1000$''"
    and absent: "map_of SERVICES (str ''seo'') = None"
    by (simp_all add: SERVICES_def str_def)
  from catalog_lookup [OF ev web, of default_config failing_world "initial Map.empty"]
  obtain k1 where k1: "str ''svc:web'' = str ''svc:'' @ k1"
    "\<forall>e. map_of SERVICES k1 = Some e \<longrightarrow>
       step default_config failing_world (initial Map.empty) (from_ali (CallbackQuery (str ''svc:web''))) =
         (initial Map.empty,
          [AnswerCallback,
           EditMessageText
             (svc_msg_1 @ name e @ svc_msg_2 @ desc e @ svc_msg_3 @ starts_from e @ svc_msg_4)
             (Some ''Markdown'')], None)"
    by (elim exE conjE) (rule that, assumption+)
  from k1(1) have "k1 = str ''web''" by (simp add: str_def)
  then have "map_of SERVICES k1 = Some (snd (SERVICES ! 0))"
    using present by (simp only:)
  from k1(2) [rule_format, OF this]
  have first: "step default_config failing_world (initial Map.empty)
      (from_ali (CallbackQuery (str ''svc:web''))) =
     (initial Map.empty,
      [AnswerCallback,
       EditMessageText
         (svc_msg_1 @ name (snd (SERVICES ! 0)) @ svc_msg_2 @ desc (snd (SERVICES ! 0)) @
          svc_msg_3 @ str ''1000$'' @ svc_msg_4)
         (Some ''Markdown'')], None)"
    by (simp only: price)
  from catalog_lookup [OF ev seo, of default_config failing_world "initial Map.empty"]
  obtain k2 where k2: "str ''svc:seo'' = str ''svc:'' @ k2"
    "map_of SERVICES k2 = None \<longrightarrow>
       step default_config failing_world (initial Map.empty) (from_ali (CallbackQuery (str ''svc:seo''))) =
         (initial Map.empty, [AnswerCallback, EditMessageText svc_error_text None], None)"
    by (elim exE conjE) (rule that, assumption+)
  from k2(1) have "k2 = str ''seo''" by (simp add: str_def)
  then have "map_of SERVICES k2 = None"
    using absent by (simp only:)
  from k2(2) [rule_format, OF this]
  have second: "step default_config failing_world (initial Map.empty)
      (from_ali (CallbackQuery (str ''svc:seo''))) =
     (initial Map.empty, [AnswerCallback, EditMessageText svc_error_text None], None)" .
  from first second show ?thesis by (rule conjI)
qed

text \<open>
  Claim C8, as stated, fails: the session is not discarded. After \<^verbatim>\<open>/contact\<close> and a
  name, \<^verbatim>\<open>/cancel\<close> ends the conversation, but the name and the need collected so far
  are still in the user's data.
\<close>

theorem session_fields_kept_counterexample:
  "conversations after_name (42, 42) = Some COLLECT_EMAIL \<and>
   conversations after_cancel (42, 42) = None \<and>
   lead_name (users after_cancel 42) = Some (str ''Ali'') \<and>
   lead_need (users after_cancel 42) = Some need_default"
  by (simp add: after_cancel_def after_name_eq step_def dispatch_command Let_def from_ali_def
        ali_def cancel_def str_inject)

text \<open>
  Claim C8, amended. From every stage of the collection flow, the cancel command
  ends the conversation (no stage is left for that chat and user), sends the
  cancellation text and nothing else, and writes no lead: the files are unchanged.
  The fields collected so far are not removed: the data of every user is unchanged.
\<close>

theorem cancel_ends_conversation:
  assumes "conversations s (chat_id upd, user_id (effective_user upd)) = Some st"
      and "event upd = Command (str ''cancel'')"
  shows "step cfg w s upd =
           (s\<lparr>conversations := (conversations s)((chat_id upd, user_id (effective_user upd)) := None)\<rparr>,
            [ReplyText cancel_text], None) \<and>
         conversations (fst (step cfg w s upd)) (chat_id upd, user_id (effective_user upd)) = None \<and>
         files (fst (step cfg w s upd)) = files s \<and>
         users (fst (step cfg w s upd)) = users s"
  using step_cancel [OF assms, of cfg w] by simp

theorem cancel_ends_conversation_witness:
  "step default_config failing_world after_name (from_ali (Command (str ''cancel''))) =
     (after_name\<lparr>conversations := (conversations after_name)((42, 42) := None)\<rparr>,
      [ReplyText cancel_text], None) \<and>
   files after_cancel = files after_name \<and> users after_cancel = users after_name"
proof -
  have st: "conversations after_name
      (chat_id (from_ali (Command (str ''cancel''))),
       user_id (effective_user (from_ali (Command (str ''cancel''))))) = Some COLLECT_EMAIL"
    by (simp add: after_name_eq from_ali_def ali_def)
  have ev: "event (from_ali (Command (str ''cancel''))) = Command (str ''cancel'')"
    by (simp add: from_ali_def)
  from cancel_ends_conversation [OF st ev, of default_config failing_world]
  show ?thesis by (simp add: after_cancel_def from_ali_def ali_def)
qed

text \<open>
  Claim C10. Ending the flow deletes nothing from the user's data: after a cancel in
  any stage, and after the note that completes the flow, the conversation is over and
  \<^verbatim>\<open>user_data\<close> of every user is exactly what it was before that update, so
  \<^verbatim>\<open>lead_name\<close>, \<^verbatim>\<open>lead_email\<close> and \<^verbatim>\<open>lead_need\<close> keep what the stage handlers
  wrote.
\<close>

theorem flow_end_keeps_user_data:
  "(conversations s (chat_id upd, user_id (effective_user upd)) = Some st \<and>
    event upd = Command (str ''cancel'') \<longrightarrow>
      conversations (fst (step cfg w s upd)) (chat_id upd, user_id (effective_user upd)) = None \<and>
      users (fst (step cfg w s upd)) = users s) \<and>
   (conversations s (chat_id upd, user_id (effective_user upd)) = Some COLLECT_NOTE \<and>
    event upd = Text t \<longrightarrow>
      conversations (fst (step cfg w s upd)) (chat_id upd, user_id (effective_user upd)) = None \<and>
      users (fst (step cfg w s upd)) = users s)"
  by (auto simp: step_cancel step_collect_note)

theorem flow_end_keeps_user_data_witness:
  "users after_cancel = users after_name \<and>
   lead_name (users after_cancel 42) = Some (str ''Ali'') \<and>
   users after_note = users after_email \<and>
   lead_name (users after_note 42) = Some (str ''Ali'') \<and>
   lead_email (users after_note 42) = Some (str ''ali@example.com'') \<and>
   lead_need (users after_note 42) = Some need_default \<and>
   conversations after_note (42, 42) = None"
  using flow_end_keeps_user_data [of after_name "from_ali (Command (str ''cancel''))" COLLECT_EMAIL
      default_config failing_world "[]"]
    flow_end_keeps_user_data [of after_email "from_ali (Text (str ''need a website''))" COLLECT_NOTE
      default_config failing_world "str ''need a website''"]
  by (simp add: after_cancel_def after_note_def after_name_eq after_email_eq from_ali_def ali_def)

section \<open>The e-mail stage\<close>

lemma repeat_ends_iff:
  "(pos', s') \<in> set (repeat_ends x (pos, s)) \<longleftrightarrow>
     (\<exists>pre. pre \<noteq> [] \<and> list_all (single_ok x) pre \<and> s = pre @ s' \<and> pos' = pos + length pre)"
proof (induction s arbitrary: pos)
  case Nil
  then show ?case by simp
next
  case (Cons c cs)
  show ?case
  proof
    assume "(pos', s') \<in> set (repeat_ends x (pos, c # cs))"
    then have ok: "single_ok x c"
      and disj: "(pos', s') \<in> set (repeat_ends x (Suc pos, cs)) \<or> (pos' = Suc pos \<and> s' = cs)"
      by (auto split: if_splits)
    from disj show "\<exists>pre. pre \<noteq> [] \<and> list_all (single_ok x) pre \<and> c # cs = pre @ s' \<and>
                        pos' = pos + length pre"
    proof
      assume "(pos', s') \<in> set (repeat_ends x (Suc pos, cs))"
      then obtain pre where "pre \<noteq> []" "list_all (single_ok x) pre" "cs = pre @ s'"
        "pos' = Suc pos + length pre"
        using Cons.IH by blast
      with ok show ?thesis
        by (intro exI [of _ "c # pre"]) simp
    next
      assume "pos' = Suc pos \<and> s' = cs"
      with ok show ?thesis
        by (intro exI [of _ "[c]"]) simp
    qed
  next
    assume "\<exists>pre. pre \<noteq> [] \<and> list_all (single_ok x) pre \<and> c # cs = pre @ s' \<and>
                  pos' = pos + length pre"
    then obtain pre where pre: "pre \<noteq> []" "list_all (single_ok x) pre" "c # cs = pre @ s'"
      "pos' = pos + length pre"
      by blast
    then obtain rest where rest: "pre = c # rest" "cs = rest @ s'"
      by (cases pre) auto
    with pre have ok: "single_ok x c" and okr: "list_all (single_ok x) rest" by auto
    show "(pos', s') \<in> set (repeat_ends x (pos, c # cs))"
    proof (cases "rest = []")
      case True
      with rest pre ok show ?thesis by simp
    next
      case False
      with okr rest pre have "(pos', s') \<in> set (repeat_ends x (Suc pos, cs))"
        using Cons.IH [of "Suc pos"] by auto
      with ok show ?thesis by simp
    qed
  qed
qed

lemma pattern_ends_Cons_nonempty:
  "pattern_ends (p # ps) st \<noteq> [] \<longleftrightarrow> (\<exists>st' \<in> set (piece_ends p st). pattern_ends ps st' \<noteq> [])"
  by auto

lemma ends_Bol:
  "pattern_ends (Bol # ps) (pos, s) \<noteq> [] \<longleftrightarrow> pos = 0 \<and> pattern_ends ps (pos, s) \<noteq> []"
  by auto

lemma ends_Eol:
  "pattern_ends (Eol # ps) (pos, s) \<noteq> [] \<longleftrightarrow>
     (s = [] \<or> s = [0x0A]) \<and> pattern_ends ps (pos, s) \<noteq> []"
  by auto

lemma ends_One:
  "pattern_ends (One x # ps) (pos, s) \<noteq> [] \<longleftrightarrow>
     (\<exists>c s'. s = c # s' \<and> single_ok x c \<and> pattern_ends ps (Suc pos, s') \<noteq> [])"
  by (cases s) simp_all

lemma ends_OneOrMore:
  "pattern_ends (OneOrMore x # ps) (pos, s) \<noteq> [] \<longleftrightarrow>
     (\<exists>pre s'. pre \<noteq> [] \<and> list_all (single_ok x) pre \<and> s = pre @ s' \<and>
               pattern_ends ps (pos + length pre, s') \<noteq> [])"
proof -
  have "pattern_ends (OneOrMore x # ps) (pos, s) \<noteq> [] \<longleftrightarrow>
          (\<exists>st' \<in> set (repeat_ends x (pos, s)). pattern_ends ps st' \<noteq> [])"
    by (simp only: pattern_ends_Cons_nonempty piece_ends.simps)
  also have "\<dots> \<longleftrightarrow> (\<exists>pos' s'. (pos', s') \<in> set (repeat_ends x (pos, s)) \<and>
                               pattern_ends ps (pos', s') \<noteq> [])"
    by auto
  also have "\<dots> \<longleftrightarrow> (\<exists>pre s'. pre \<noteq> [] \<and> list_all (single_ok x) pre \<and> s = pre @ s' \<and>
               pattern_ends ps (pos + length pre, s') \<noteq> [])"
    unfolding repeat_ends_iff by blast
  finally show ?thesis .
qed

lemma email_class:
  "list_all (single_ok (NoneOf [Whitespace, Chr 0x40])) p \<and> p \<noteq> [] \<longleftrightarrow> email_part p"
  by (auto simp: email_part_def list_all_iff)

lemma re_match_EMAIL_RE_expand:
  "re_match EMAIL_RE s \<longleftrightarrow>
          (\<exists>l s1. l \<noteq> [] \<and> list_all (single_ok (NoneOf [Whitespace, Chr 0x40])) l \<and> s = l @ s1 \<and>
             (\<exists>c s2. s1 = c # s2 \<and> c = 0x40 \<and>
                (\<exists>d s3. d \<noteq> [] \<and> list_all (single_ok (NoneOf [Whitespace, Chr 0x40])) d \<and>
                   s2 = d @ s3 \<and>
                   (\<exists>c' s4. s3 = c' # s4 \<and> c' = 0x2E \<and>
                      (\<exists>t r. t \<noteq> [] \<and> list_all (single_ok (NoneOf [Whitespace, Chr 0x40])) t \<and>
                         s4 = t @ r \<and> (r = [] \<or> r = [0x0A]))))))"
  by (simp only: re_match_def EMAIL_RE_def ends_Bol ends_Eol ends_One ends_OneOrMore
        single_ok.simps(1) pattern_ends.simps(1) simp_thms list.simps)

lemma re_match_EMAIL_RE:
  "re_match EMAIL_RE s \<longleftrightarrow>
     (\<exists>l d t r. s = l @ [0x40] @ d @ [0x2E] @ t @ r \<and> email_part l \<and> email_part d \<and>
                email_part t \<and> (r = [] \<or> r = [0x0A]))"
proof
  assume "re_match EMAIL_RE s"
  then obtain l s1 c s2 d s3 c' s4 t r where
    "l \<noteq> []" "list_all (single_ok (NoneOf [Whitespace, Chr 0x40])) l" "s = l @ s1"
    "s1 = c # s2" "c = 0x40"
    "d \<noteq> []" "list_all (single_ok (NoneOf [Whitespace, Chr 0x40])) d" "s2 = d @ s3"
    "s3 = c' # s4" "c' = 0x2E"
    "t \<noteq> []" "list_all (single_ok (NoneOf [Whitespace, Chr 0x40])) t" "s4 = t @ r"
    "r = [] \<or> r = [0x0A]"
    unfolding re_match_EMAIL_RE_expand by (elim exE conjE) (rule that, assumption+)
  then have "s = l @ [0x40] @ d @ [0x2E] @ t @ r \<and> email_part l \<and> email_part d \<and>
             email_part t \<and> (r = [] \<or> r = [0x0A])"
    by (simp add: email_class [symmetric])
  then show "\<exists>l d t r. s = l @ [0x40] @ d @ [0x2E] @ t @ r \<and> email_part l \<and> email_part d \<and>
                email_part t \<and> (r = [] \<or> r = [0x0A])"
    by (intro exI)
next
  assume "\<exists>l d t r. s = l @ [0x40] @ d @ [0x2E] @ t @ r \<and> email_part l \<and> email_part d \<and>
                email_part t \<and> (r = [] \<or> r = [0x0A])"
  then obtain l d t r where s: "s = l @ [0x40] @ d @ [0x2E] @ t @ r"
    and p: "email_part l" "email_part d" "email_part t" and r: "r = [] \<or> r = [0x0A]"
    by (elim exE conjE) (rule that, assumption+)
  from p have c: "l \<noteq> []" "list_all (single_ok (NoneOf [Whitespace, Chr 0x40])) l"
    "d \<noteq> []" "list_all (single_ok (NoneOf [Whitespace, Chr 0x40])) d"
    "t \<noteq> []" "list_all (single_ok (NoneOf [Whitespace, Chr 0x40])) t"
    by (simp_all add: email_class [symmetric])
  show "re_match EMAIL_RE s"
    unfolding re_match_EMAIL_RE_expand
    apply (rule exI [of _ l], rule exI [of _ "[0x40] @ d @ [0x2E] @ t @ r"])
    apply (intro conjI c)
     apply (simp add: s)
    apply (rule exI [of _ "0x40"], rule exI [of _ "d @ [0x2E] @ t @ r"])
    apply (intro conjI c)
      apply simp
     apply simp
    apply (rule exI [of _ d], rule exI [of _ "[0x2E] @ t @ r"])
    apply (intro conjI c)
     apply simp
    apply (rule exI [of _ "0x2E"], rule exI [of _ "t @ r"])
    apply (intro conjI c)
      apply simp
     apply simp
    apply (rule exI [of _ t], rule exI [of _ r])
    apply (intro conjI c r)
    apply simp
    done
qed

lemma strip_last_not_space: "strip s \<noteq> [] \<Longrightarrow> \<not> is_space (last (strip s))"
proof -
  assume ne: "strip s \<noteq> []"
  let ?d = "dropWhile is_space (rev (lstrip s))"
  have eq: "strip s = rev ?d" by (simp add: strip_def rstrip_def)
  with ne have d: "?d \<noteq> []" by simp
  then have "\<not> is_space (hd ?d)" by (rule hd_dropWhile)
  moreover have "last (strip s) = hd ?d" using d by (simp add: eq last_rev)
  ultimately show ?thesis by simp
qed

lemma strip_id:
  assumes "s \<noteq> []" and "\<not> is_space (hd s)" and "\<not> is_space (last s)"
  shows "strip s = s"
proof -
  from assms(1,2) have l: "lstrip s = s"
    by (cases s) (simp_all add: lstrip_def)
  from assms(1,3) have "dropWhile is_space (rev s) = rev s"
    by (cases "rev s") (simp_all add: hd_rev)
  with l show ?thesis by (simp add: strip_def rstrip_def)
qed

lemma email_part_ends:
  "email_part p \<Longrightarrow> p \<noteq> [] \<and> \<not> is_space (hd p) \<and> \<not> is_space (last p)"
  by (cases p) (auto simp: email_part_def list_all_iff)

lemma email_shape_strip: "email_shape s \<Longrightarrow> strip s = s"
proof -
  assume "email_shape s"
  then obtain l d t where s: "s = l @ [0x40] @ d @ [0x2E] @ t"
    and p: "email_part l" "email_part t"
    unfolding email_shape_def by (elim exE conjE) (rule that, assumption+)
  from p have l: "l \<noteq> []" "\<not> is_space (hd l)" and t: "t \<noteq> []" "\<not> is_space (last t)"
    using email_part_ends by blast+
  have "s \<noteq> []" "hd s = hd l" "last s = last t"
    using l(1) t(1) by (simp_all add: s)
  with l t show ?thesis by (simp add: strip_id)
qed

lemma re_match_stripped: "re_match EMAIL_RE (strip t) \<longleftrightarrow> email_shape (strip t)"
proof
  assume "re_match EMAIL_RE (strip t)"
  then obtain l d p r where s: "strip t = l @ [0x40] @ d @ [0x2E] @ p @ r"
    and parts: "email_part l" "email_part d" "email_part p" and r: "r = [] \<or> r = [0x0A]"
    unfolding re_match_EMAIL_RE by (elim exE conjE) (rule that, assumption+)
  have "r = []"
  proof (rule ccontr)
    assume "r \<noteq> []"
    with r have "r = [0x0A]" by simp
    with s have "strip t \<noteq> []" "last (strip t) = 0x0A" by simp_all
    moreover have "is_space 0x0A" by (simp add: is_space_def)
    ultimately show False using strip_last_not_space [of t] by simp
  qed
  with s parts show "email_shape (strip t)"
    unfolding email_shape_def by auto
next
  assume "email_shape (strip t)"
  then obtain l d p where "strip t = l @ [0x40] @ d @ [0x2E] @ p"
    "email_part l" "email_part d" "email_part p"
    unfolding email_shape_def by (elim exE conjE) (rule that, assumption+)
  then have "strip t = l @ [0x40] @ d @ [0x2E] @ p @ [] \<and> email_part l \<and> email_part d \<and>
             email_part p \<and> ([] = [] \<or> [] = [0x0A::nat])"
    by simp
  then show "re_match EMAIL_RE (strip t)"
    unfolding re_match_EMAIL_RE by (intro exI)
qed

lemma step_collect_email:
  assumes "conversations s (chat_id upd, user_id (effective_user upd)) = Some COLLECT_EMAIL"
      and "event upd = Text t"
  shows "step cfg w s upd =
           (if re_match EMAIL_RE (strip t)
            then (s\<lparr>conversations :=
                      (conversations s)((chat_id upd, user_id (effective_user upd)) := Some COLLECT_NOTE),
                    users := (users s)(user_id (effective_user upd) :=
                      (users s (user_id (effective_user upd)))\<lparr>lead_email := Some (strip t)\<rparr>)\<rparr>,
                  [ReplyText ask_note_text], None)
            else (s, [ReplyText bad_email_text], None))"
proof -
  have same: "s\<lparr>conversations :=
                  (conversations s)((chat_id upd, user_id (effective_user upd)) := Some COLLECT_EMAIL),
                users := (users s)(user_id (effective_user upd) := users s (user_id (effective_user upd)))\<rparr> = s"
    using assms(1) by (simp add: fun_upd_idem)
  show ?thesis
    using assms same by (simp add: step_def dispatch_text collect_email_def Let_def)
qed

lemma strip_padded: "strip (str '' a@b.c'') = str ''a@b.c''"
  by (simp add: str_def strip_def lstrip_def rstrip_def is_space_def)

lemma email_short: "re_match EMAIL_RE (str ''a@b.c'')"
  by (simp add: re_match_def EMAIL_RE_def str_def is_space_def)

text \<open>
  Claim C2, as stated, fails for input with whitespace around it: the text
  \<^verbatim>\<open>" a@b.c"\<close> does not have the shape (it starts with a space), yet the stage
  advances and stores \<^verbatim>\<open>"a@b.c"\<close>, because \<^verbatim>\<open>collect_email\<close> strips the text before
  it matches it.
\<close>

theorem untrimmed_email_counterexample:
  "\<not> email_shape (str '' a@b.c'') \<and>
   conversations after_name (42, 42) = Some COLLECT_EMAIL \<and>
   conversations after_padded_email (42, 42) = Some COLLECT_NOTE \<and>
   lead_email (users after_padded_email 42) = Some (str ''a@b.c'')"
proof -
  have "\<not> email_shape (str '' a@b.c'')"
  proof
    assume "email_shape (str '' a@b.c'')"
    then have "strip (str '' a@b.c'') = str '' a@b.c''" by (rule email_shape_strip)
    then show False by (simp add: strip_padded) (simp add: str_def)
  qed
  moreover have "conversations after_name (42, 42) = Some COLLECT_EMAIL"
    by (simp add: after_name_eq)
  moreover have "conversations after_padded_email (42, 42) = Some COLLECT_NOTE \<and>
                 lead_email (users after_padded_email 42) = Some (str ''a@b.c'')"
    by (simp add: after_padded_email_def after_name_eq step_def dispatch_text Let_def
          from_ali_def ali_def collect_email_def strip_padded email_short)
  ultimately show ?thesis by simp
qed

text \<open>
  Claim C2, amended. In the stage \<^verbatim>\<open>COLLECT_EMAIL\<close>, a text whose stripped form has the
  shape \<^verbatim>\<open>local@domain.tld\<close> stores the stripped form as the e-mail, asks for the note
  and advances to \<^verbatim>\<open>COLLECT_NOTE\<close>; any other text gets the re-prompt and leaves the
  whole state as it was, the stage included. A text that has the shape itself is
  its own stripped form, so it is stored as it is.
\<close>

theorem email_stage:
  assumes "conversations s (chat_id upd, user_id (effective_user upd)) = Some COLLECT_EMAIL"
      and "event upd = Text t"
  shows "(email_shape (strip t) \<longrightarrow>
            step cfg w s upd =
              (s\<lparr>conversations :=
                   (conversations s)((chat_id upd, user_id (effective_user upd)) := Some COLLECT_NOTE),
                 users := (users s)(user_id (effective_user upd) :=
                   (users s (user_id (effective_user upd)))\<lparr>lead_email := Some (strip t)\<rparr>)\<rparr>,
               [ReplyText ask_note_text], None)) \<and>
         (\<not> email_shape (strip t) \<longrightarrow> step cfg w s upd = (s, [ReplyText bad_email_text], None)) \<and>
         (email_shape t \<longrightarrow> strip t = t)"
  using step_collect_email [OF assms, of cfg w]
  by (simp add: re_match_stripped email_shape_strip)

theorem email_stage_witness:
  "step default_config failing_world after_name (from_ali (Text (str ''ali@example.com''))) =
     (after_email, [ReplyText ask_note_text], None) \<and>
   step default_config failing_world after_name (from_ali (Text (str ''ali at example''))) =
     (after_name, [ReplyText bad_email_text], None) \<and>
   email_shape (str ''ali@example.com'')"
proof -
  have st: "conversations after_name
      (chat_id (from_ali (Text x)), user_id (effective_user (from_ali (Text x)))) = Some COLLECT_EMAIL"
    for x by (simp add: after_name_eq from_ali_def ali_def)
  have ev: "event (from_ali (Text x)) = Text x" for x
    by (simp add: from_ali_def)
  have "re_match EMAIL_RE (strip (str ''ali@example.com''))"
    using email_ali by (simp add: strip_email_ali)
  then have good: "email_shape (strip (str ''ali@example.com''))"
    by (simp only: re_match_stripped)
  have bad: "\<not> email_shape (strip (str ''ali at example''))"
    unfolding re_match_stripped [symmetric]
    by (simp add: re_match_def EMAIL_RE_def str_def strip_def lstrip_def rstrip_def is_space_def)
  from email_stage [OF st ev, of "str ''ali@example.com''" default_config failing_world] good
  have "step default_config failing_world after_name (from_ali (Text (str ''ali@example.com''))) =
     (after_email, [ReplyText ask_note_text], None)"
    by (simp add: after_email_eq after_name_eq from_ali_def ali_def strip_email_ali)
  moreover from email_stage [OF st ev, of "str ''ali at example''" default_config failing_world] bad
  have "step default_config failing_world after_name (from_ali (Text (str ''ali at example''))) =
     (after_name, [ReplyText bad_email_text], None)"
    by simp
  moreover from good have "email_shape (str ''ali@example.com'')"
    by (simp add: strip_email_ali)
  ultimately show ?thesis by simp
qed

section \<open>When a lead is written\<close>

lemma ai_reply_leads:
  "lead_need (fst (ai_reply cfg w t ud)) = lead_need ud"
  "lead_name (fst (ai_reply cfg w t ud)) = lead_name ud"
  "lead_email (fst (ai_reply cfg w t ud)) = lead_email ud"
  by (simp_all add: ai_reply_def Let_def add_user_memory_leads split: prod.split sum.split)

lemma start_leads:
  "lead_need (fst (start cfg ud)) = lead_need ud"
  "lead_name (fst (start cfg ud)) = lead_name ud"
  "lead_email (fst (start cfg ud)) = lead_email ud"
  by (simp_all add: start_def add_user_memory_leads)

lemma step_conversations:
  "conversations (fst (step cfg w s upd)) =
     (let key = (chat_id upd, user_id (effective_user upd))
      in case dispatch (conversations s key) (event upd) of
           Some ContactStart \<Rightarrow> (conversations s)(key := Some COLLECT_NAME)
         | Some (CollectName t) \<Rightarrow> (conversations s)(key := Some COLLECT_EMAIL)
         | Some (CollectEmail t) \<Rightarrow>
             (conversations s)(key := Some (if re_match EMAIL_RE (strip t) then COLLECT_NOTE
                                            else COLLECT_EMAIL))
         | Some (CollectNote t) \<Rightarrow> (conversations s)(key := None)
         | Some Cancel \<Rightarrow> (conversations s)(key := None)
         | _ \<Rightarrow> conversations s)"
  by (simp add: step_def Let_def contact_start_def collect_name_def collect_email_def
        collect_note_def cancel_def
      split: option.split call.split prod.split)

lemma step_files:
  "files (fst (step cfg w s upd)) =
     (case dispatch (conversations s (chat_id upd, user_id (effective_user upd))) (event upd) of
        Some (CollectNote t) \<Rightarrow>
          fst (collect_note w upd t (users s (user_id (effective_user upd))) (files s))
      | _ \<Rightarrow> files s)"
  by (simp add: step_def Let_def split: option.split call.split prod.split)

lemma dispatch_Some:
  "dispatch stage ev = Some c \<Longrightarrow>
     (case c of
        Start \<Rightarrow> ev = Command (str ''start'')
      | Services \<Rightarrow> ev = Command (str ''services'')
      | OnServiceClick d \<Rightarrow> ev = CallbackQuery d
      | ContactStart \<Rightarrow> stage = None \<and> ev = Command (str ''contact'')
      | CollectName t \<Rightarrow> stage = Some COLLECT_NAME \<and> ev = Text t
      | CollectEmail t \<Rightarrow> stage = Some COLLECT_EMAIL \<and> ev = Text t
      | CollectNote t \<Rightarrow> stage = Some COLLECT_NOTE \<and> ev = Text t
      | Cancel \<Rightarrow> stage \<noteq> None \<and> ev = Command (str ''cancel'')
      | AiReply t \<Rightarrow> stage = None \<and> ev = Text t)"
  by (cases ev)
     (auto simp: dispatch_command dispatch_text dispatch_callback
       split: if_splits option.splits conv_state.splits call.splits)

lemma stage_inv_initial: "stage_inv (initial fs)"
  by (simp add: stage_inv_def initial_def empty_user_data_def)

lemma step_stage_inv:
  assumes inv: "stage_inv s"
  shows "stage_inv (fst (step cfg w s upd))"
proof -
  define u where "u = user_id (effective_user upd)"
  define k where "k = (chat_id upd, u)"
  define d where "d = dispatch (conversations s k) (event upd)"
  note defs = u_def [symmetric] k_def [symmetric] d_def [symmetric]
  have need: "\<And>v n. lead_need (users s v) = Some n \<Longrightarrow> n = need_default"
    and mail: "\<And>v e. lead_email (users s v) = Some e \<Longrightarrow> email_shape e"
    and conv: "\<And>c v st. conversations s (c, v) = Some st \<Longrightarrow>
        lead_need (users s v) \<noteq> None \<and>
        (st \<noteq> COLLECT_NAME \<longrightarrow> lead_name (users s v) \<noteq> None) \<and>
        (st = COLLECT_NOTE \<longrightarrow> lead_email (users s v) \<noteq> None)"
    using inv unfolding stage_inv_def by blast+
  have convk: "\<And>st. conversations s k = Some st \<Longrightarrow>
        lead_need (users s u) \<noteq> None \<and>
        (st \<noteq> COLLECT_NAME \<longrightarrow> lead_name (users s u) \<noteq> None) \<and>
        (st = COLLECT_NOTE \<longrightarrow> lead_email (users s u) \<noteq> None)"
    using conv unfolding k_def by blast
  have U: "users (fst (step cfg w s upd)) =
     (case d of
           Some Start \<Rightarrow> (users s)(u := fst (start cfg (users s u)))
         | Some ContactStart \<Rightarrow> (users s)(u := fst (contact_start (users s u)))
         | Some (CollectName t) \<Rightarrow> (users s)(u := fst (collect_name t (users s u)))
         | Some (CollectEmail t) \<Rightarrow> (users s)(u := fst (collect_email t (users s u)))
         | Some (AiReply t) \<Rightarrow> (users s)(u := fst (ai_reply cfg w t (users s u)))
         | _ \<Rightarrow> users s)"
    by (simp add: step_users Let_def defs)
  have C: "conversations (fst (step cfg w s upd)) =
     (case d of
           Some ContactStart \<Rightarrow> (conversations s)(k := Some COLLECT_NAME)
         | Some (CollectName t) \<Rightarrow> (conversations s)(k := Some COLLECT_EMAIL)
         | Some (CollectEmail t) \<Rightarrow>
             (conversations s)(k := Some (if re_match EMAIL_RE (strip t) then COLLECT_NOTE
                                            else COLLECT_EMAIL))
         | Some (CollectNote t) \<Rightarrow> (conversations s)(k := None)
         | Some Cancel \<Rightarrow> (conversations s)(k := None)
         | _ \<Rightarrow> conversations s)"
    by (simp add: step_conversations Let_def defs)
  have D: "\<And>c. d = Some c \<Longrightarrow>
     (case c of
        ContactStart \<Rightarrow> conversations s k = None
      | CollectName t \<Rightarrow> conversations s k = Some COLLECT_NAME
      | CollectEmail t \<Rightarrow> conversations s k = Some COLLECT_EMAIL
      | CollectNote t \<Rightarrow> conversations s k = Some COLLECT_NOTE
      | _ \<Rightarrow> True)"
    using dispatch_Some [of "conversations s k" "event upd"] unfolding d_def
    by (auto split: call.splits)
  show ?thesis
  proof (cases d)
    case None
    with U C inv show ?thesis by (simp add: stage_inv_def)
  next
    case (Some c)
    show ?thesis
    proof (cases c)
      case Start
      with Some U C need mail conv show ?thesis
        by (auto simp: stage_inv_def start_leads)
    next
      case Services
      with Some U C inv show ?thesis by (simp add: stage_inv_def)
    next
      case (OnServiceClick x)
      with Some U C inv show ?thesis by (simp add: stage_inv_def)
    next
      case ContactStart
      with Some U C need mail conv show ?thesis
        by (auto simp: stage_inv_def contact_start_def k_def)
    next
      case (CollectName t)
      with Some D [OF Some] have "conversations s k = Some COLLECT_NAME" by simp
      with convk have "lead_need (users s u) \<noteq> None" by blast
      with CollectName Some U C need mail conv show ?thesis
        by (auto simp: stage_inv_def collect_name_def k_def)
    next
      case (CollectEmail t)
      with Some D [OF Some] have "conversations s k = Some COLLECT_EMAIL" by simp
      with convk have "lead_need (users s u) \<noteq> None" "lead_name (users s u) \<noteq> None" by auto
      with CollectEmail Some U C need mail conv show ?thesis
        by (auto simp: stage_inv_def collect_email_def k_def Let_def re_match_stripped)
    next
      case (CollectNote t)
      with Some U C need mail conv show ?thesis
        by (auto simp: stage_inv_def k_def)
    next
      case Cancel
      with Some U C need mail conv show ?thesis
        by (auto simp: stage_inv_def k_def)
    next
      case (AiReply t)
      with Some U C need mail conv show ?thesis
        by (auto simp: stage_inv_def ai_reply_leads)
    qed
  qed
qed

lemma reachable_stage_inv: "reachable cfg s \<Longrightarrow> stage_inv s"
  by (induction rule: reachable.induct) (simp_all add: stage_inv_initial step_stage_inv)

lemma reachable_run: "reachable cfg s \<Longrightarrow> reachable cfg (run cfg s evs)"
  by (induction evs arbitrary: s) (simp_all add: reachable_step)

lemma save_lead_files:
  "save_lead now nm email need upd note fs =
     fs(LEADS_CSV \<mapsto> (case fs LEADS_CSV of None \<Rightarrow> [HEADER] | Some rows \<Rightarrow> rows) @
        [[now, nm, email, need, str ''tg://user?id='' @ str_of_int (user_id (effective_user upd)),
          (case username (effective_user upd) of None \<Rightarrow> [] | Some x \<Rightarrow> x), note]])"
  by (simp add: save_lead_def append_row_def ensure_leads_csv_def write_new_def split: option.split)

lemma save_lead_changes: "save_lead now nm email need upd note fs \<noteq> fs"
proof
  assume "save_lead now nm email need upd note fs = fs"
  then have "save_lead now nm email need upd note fs LEADS_CSV = fs LEADS_CSV" by simp
  then show False
    by (simp add: save_lead_files split: option.splits)
qed

text \<open>
  Claim C1. In every state the bot can reach, an update changes the files exactly
  when the conversation of its chat and user is in the stage \<^verbatim>\<open>COLLECT_NOTE\<close> and the
  update is a text. That update appends exactly one row to the lead log (after the
  header, if the log had to be created): the time, the name and the validated e-mail
  stored by the earlier stages, the default need, the user's link and username, and
  the stripped note; and it ends the conversation. A conversation enters a stage only
  from the stage before it: \<^verbatim>\<open>COLLECT_NAME\<close> from none by the contact command,
  \<^verbatim>\<open>COLLECT_EMAIL\<close> from \<^verbatim>\<open>COLLECT_NAME\<close> by a text, \<^verbatim>\<open>COLLECT_NOTE\<close> from
  \<^verbatim>\<open>COLLECT_EMAIL\<close> by a text whose stripped form has the e-mail shape. A cancel
  command writes nothing.
\<close>

theorem lead_written_on_completion_only:
  assumes "reachable cfg s"
  shows
   "(files (fst (step cfg w s upd)) \<noteq> files s \<longleftrightarrow>
       conversations s (chat_id upd, user_id (effective_user upd)) = Some COLLECT_NOTE \<and>
       (\<exists>t. event upd = Text t)) \<and>
    (\<forall>t. conversations s (chat_id upd, user_id (effective_user upd)) = Some COLLECT_NOTE \<and>
         event upd = Text t \<longrightarrow>
       (\<exists>n e. lead_name (users s (user_id (effective_user upd))) = Some n \<and>
              lead_email (users s (user_id (effective_user upd))) = Some e \<and> email_shape e \<and>
              lead_need (users s (user_id (effective_user upd))) = Some need_default \<and>
              files (fst (step cfg w s upd)) =
                (files s)(LEADS_CSV \<mapsto>
                   (case files s LEADS_CSV of None \<Rightarrow> [HEADER] | Some rows \<Rightarrow> rows) @
                   [[utcnow w, n, e, need_default,
                     str ''tg://user?id='' @ str_of_int (user_id (effective_user upd)),
                     (case username (effective_user upd) of None \<Rightarrow> [] | Some x \<Rightarrow> x),
                     strip t]]) \<and>
              conversations (fst (step cfg w s upd)) (chat_id upd, user_id (effective_user upd)) =
                None)) \<and>
    (\<forall>k st. conversations (fst (step cfg w s upd)) k = Some st \<and> conversations s k \<noteq> Some st \<longrightarrow>
       k = (chat_id upd, user_id (effective_user upd)) \<and>
       (st = COLLECT_NAME \<and> conversations s k = None \<and> event upd = Command (str ''contact'') \<or>
        st = COLLECT_EMAIL \<and> conversations s k = Some COLLECT_NAME \<and> (\<exists>t. event upd = Text t) \<or>
        st = COLLECT_NOTE \<and> conversations s k = Some COLLECT_EMAIL \<and>
          (\<exists>t. event upd = Text t \<and> email_shape (strip t)))) \<and>
    (event upd = Command (str ''cancel'') \<longrightarrow> files (fst (step cfg w s upd)) = files s)"
proof -
  define u where "u = user_id (effective_user upd)"
  define k where "k = (chat_id upd, u)"
  define d where "d = dispatch (conversations s k) (event upd)"
  note defs = u_def [symmetric] k_def [symmetric] d_def [symmetric]
  have inv: "stage_inv s" using assms by (rule reachable_stage_inv)
  have D: "\<And>c. d = Some c \<Longrightarrow>
     (case c of
        Start \<Rightarrow> event upd = Command (str ''start'')
      | Services \<Rightarrow> event upd = Command (str ''services'')
      | OnServiceClick x \<Rightarrow> event upd = CallbackQuery x
      | ContactStart \<Rightarrow> conversations s k = None \<and> event upd = Command (str ''contact'')
      | CollectName t \<Rightarrow> conversations s k = Some COLLECT_NAME \<and> event upd = Text t
      | CollectEmail t \<Rightarrow> conversations s k = Some COLLECT_EMAIL \<and> event upd = Text t
      | CollectNote t \<Rightarrow> conversations s k = Some COLLECT_NOTE \<and> event upd = Text t
      | Cancel \<Rightarrow> conversations s k \<noteq> None \<and> event upd = Command (str ''cancel'')
      | AiReply t \<Rightarrow> conversations s k = None \<and> event upd = Text t)"
    using dispatch_Some [of "conversations s k" "event upd"] unfolding d_def by blast
  have F: "files (fst (step cfg w s upd)) =
     (case d of
        Some (CollectNote t) \<Rightarrow> fst (collect_note w upd t (users s u) (files s))
      | _ \<Rightarrow> files s)"
    unfolding d_def k_def u_def by (rule step_files)
  have C: "conversations (fst (step cfg w s upd)) =
     (case d of
           Some ContactStart \<Rightarrow> (conversations s)(k := Some COLLECT_NAME)
         | Some (CollectName t) \<Rightarrow> (conversations s)(k := Some COLLECT_EMAIL)
         | Some (CollectEmail t) \<Rightarrow>
             (conversations s)(k := Some (if re_match EMAIL_RE (strip t) then COLLECT_NOTE
                                            else COLLECT_EMAIL))
         | Some (CollectNote t) \<Rightarrow> (conversations s)(k := None)
         | Some Cancel \<Rightarrow> (conversations s)(k := None)
         | _ \<Rightarrow> conversations s)"
    by (simp add: step_conversations Let_def defs)
  have note_d: "d = Some (CollectNote t)" if "conversations s k = Some COLLECT_NOTE" "event upd = Text t" for t
    using that by (simp add: d_def dispatch_text)
  have p1: "files (fst (step cfg w s upd)) \<noteq> files s \<longleftrightarrow>
              conversations s k = Some COLLECT_NOTE \<and> (\<exists>t. event upd = Text t)"
  proof
    assume ch: "files (fst (step cfg w s upd)) \<noteq> files s"
    then obtain t where "d = Some (CollectNote t)"
      unfolding F by (cases d) (auto split: call.splits)
    from D [OF this] show "conversations s k = Some COLLECT_NOTE \<and> (\<exists>t. event upd = Text t)"
      by simp
  next
    assume "conversations s k = Some COLLECT_NOTE \<and> (\<exists>t. event upd = Text t)"
    then obtain t where "d = Some (CollectNote t)" using note_d by blast
    then show "files (fst (step cfg w s upd)) \<noteq> files s"
      by (simp add: F collect_note_def Let_def save_lead_changes)
  qed
  have p2: "\<exists>n e. lead_name (users s u) = Some n \<and> lead_email (users s u) = Some e \<and>
              email_shape e \<and> lead_need (users s u) = Some need_default \<and>
              files (fst (step cfg w s upd)) =
                (files s)(LEADS_CSV \<mapsto>
                   (case files s LEADS_CSV of None \<Rightarrow> [HEADER] | Some rows \<Rightarrow> rows) @
                   [[utcnow w, n, e, need_default, str ''tg://user?id='' @ str_of_int u,
                     (case username (effective_user upd) of None \<Rightarrow> [] | Some x \<Rightarrow> x),
                     strip t]]) \<and>
              conversations (fst (step cfg w s upd)) k = None"
    if st: "conversations s k = Some COLLECT_NOTE" and ev: "event upd = Text t" for t
  proof -
    from inv st obtain n e nd where f: "lead_name (users s u) = Some n"
      "lead_email (users s u) = Some e" "lead_need (users s u) = Some nd"
      unfolding stage_inv_def k_def by (metis not_Some_eq conv_state.distinct(3))
    with inv have v: "email_shape e" "nd = need_default"
      unfolding stage_inv_def by blast+
    have dd: "d = Some (CollectNote t)" using st ev by (rule note_d)
    have "files (fst (step cfg w s upd)) =
                (files s)(LEADS_CSV \<mapsto>
                   (case files s LEADS_CSV of None \<Rightarrow> [HEADER] | Some rows \<Rightarrow> rows) @
                   [[utcnow w, n, e, need_default, str ''tg://user?id='' @ str_of_int u,
                     (case username (effective_user upd) of None \<Rightarrow> [] | Some x \<Rightarrow> x),
                     strip t]])"
      using f v by (simp add: F dd collect_note_def Let_def save_lead_files u_def)
    moreover have "conversations (fst (step cfg w s upd)) k = None"
      by (simp add: C dd)
    ultimately show ?thesis using f v by simp
  qed
  have p3: "k' = k \<and>
       (st = COLLECT_NAME \<and> conversations s k' = None \<and> event upd = Command (str ''contact'') \<or>
        st = COLLECT_EMAIL \<and> conversations s k' = Some COLLECT_NAME \<and> (\<exists>t. event upd = Text t) \<or>
        st = COLLECT_NOTE \<and> conversations s k' = Some COLLECT_EMAIL \<and>
          (\<exists>t. event upd = Text t \<and> email_shape (strip t)))"
    if new: "conversations (fst (step cfg w s upd)) k' = Some st" and old: "conversations s k' \<noteq> Some st"
    for k' st
  proof (cases d)
    case None
    with new old C show ?thesis by simp
  next
    case (Some c)
    from D [OF Some] new old C Some show ?thesis
      by (cases c) (auto simp: re_match_stripped split: if_splits)
  qed
  have p4: "files (fst (step cfg w s upd)) = files s" if "event upd = Command (str ''cancel'')"
    using p1 that by auto
  show ?thesis
    unfolding defs using p1 p2 p3 p4 by blast
qed

lemma reachable_after_name: "reachable default_config after_name"
  unfolding after_name_def by (rule reachable_run) (rule reachable_initial)

lemma reachable_after_email: "reachable default_config after_email"
  unfolding after_email_def by (rule reachable_step) (rule reachable_after_name)

theorem lead_written_on_completion_only_witness:
  "files after_note =
     [LEADS_CSV \<mapsto>
        [HEADER,
         [utcnow failing_world, str ''Ali'', str ''ali@example.com'', need_default,
          str ''tg://user?id=42'', str ''ali'', str ''need a website'']]] \<and>
   conversations after_note (42, 42) = None \<and>
   files after_name = Map.empty \<and>
   files after_cancel = Map.empty"
proof -
  let ?note = "from_ali (Text (str ''need a website''))"
  let ?cancel = "from_ali (Command (str ''cancel''))"
  have st: "conversations after_email (chat_id ?note, user_id (effective_user ?note)) = Some COLLECT_NOTE \<and>
            event ?note = Text (str ''need a website'')"
    by (simp add: after_email_eq from_ali_def ali_def)
  from lead_written_on_completion_only [OF reachable_after_email, of failing_world ?note,
      THEN conjunct2, THEN conjunct1, rule_format, OF st]
  obtain n e where f: "lead_name (users after_email (user_id (effective_user ?note))) = Some n"
    "lead_email (users after_email (user_id (effective_user ?note))) = Some e"
    and files: "files (fst (step default_config failing_world after_email ?note)) =
                (files after_email)(LEADS_CSV \<mapsto>
                   (case files after_email LEADS_CSV of None \<Rightarrow> [HEADER] | Some rows \<Rightarrow> rows) @
                   [[utcnow failing_world, n, e, need_default,
                     str ''tg://user?id='' @ str_of_int (user_id (effective_user ?note)),
                     (case username (effective_user ?note) of None \<Rightarrow> [] | Some x \<Rightarrow> x),
                     strip (str ''need a website'')]])"
    and conv: "conversations (fst (step default_config failing_world after_email ?note))
                 (chat_id ?note, user_id (effective_user ?note)) = None"
    by (elim exE conjE) (rule that, assumption+)
  from f have ne: "n = str ''Ali''" "e = str ''ali@example.com''"
    by (simp_all add: after_email_eq from_ali_def ali_def)
  have id: "str ''tg://user?id='' @ str_of_int 42 = str ''tg://user?id=42''"
    by (simp add: str_def str_of_int_def)
  have sn: "strip (str ''need a website'') = str ''need a website''"
    by (simp add: str_def strip_def lstrip_def rstrip_def is_space_def)
  have first: "files after_note =
     [LEADS_CSV \<mapsto>
        [HEADER,
         [utcnow failing_world, str ''Ali'', str ''ali@example.com'', need_default,
          str ''tg://user?id=42'', str ''ali'', str ''need a website'']]]"
    using files by (simp add: after_note_def ne sn id after_email_eq from_ali_def ali_def)
  have second: "conversations after_note (42, 42) = None"
    using conv by (simp add: after_note_def from_ali_def ali_def)
  have ev: "event ?cancel = Command (str ''cancel'')"
    by (simp add: from_ali_def)
  from lead_written_on_completion_only [OF reachable_after_name, of failing_world ?cancel,
      THEN conjunct2, THEN conjunct2, THEN conjunct2, rule_format, OF ev]
  have "files after_cancel = files after_name"
    by (simp add: after_cancel_def)
  moreover have "files after_name = Map.empty"
    by (simp add: after_name_eq)
  ultimately show ?thesis using first second by simp
qed

end
